theory Spec2Isabelle
  imports Complex_Main "HOL-Library.Sublist" "HOL-Library.List_Lexorder" "HOL-Library.Char_ord"
    "HOL-Library.AList"
begin

section \<open>Strings\<close>

text \<open>
  Python strings are modelled as \<open>string\<close>; the model covers ASCII text, where a
  character is one \<open>char\<close> and \<open>len\<close> is \<open>length\<close>. The character classes
  below are the ASCII parts of Python's \<open>\d\<close>, \<open>\w\<close>, \<open>\s\<close> and of \<open>str.lower\<close>.
\<close>

definition is_digit :: "char \<Rightarrow> bool" where
  "is_digit c = (c \<in> set ''0123456789'')"

definition is_upper :: "char \<Rightarrow> bool" where
  "is_upper c = (c \<in> set ''ABCDEFGHIJKLMNOPQRSTUVWXYZ'')"

definition is_lower :: "char \<Rightarrow> bool" where
  "is_lower c = (c \<in> set ''abcdefghijklmnopqrstuvwxyz'')"

definition is_word_char :: "char \<Rightarrow> bool" where
  "is_word_char c = (is_digit c \<or> is_upper c \<or> is_lower c \<or> c = CHR ''_'')"

definition is_space :: "char \<Rightarrow> bool" where
  "is_space c = (c \<in> set [CHR '' '', CHR 0x09, CHR 0x0A, CHR 0x0B, CHR 0x0C, CHR 0x0D,
                            CHR 0x1C, CHR 0x1D, CHR 0x1E, CHR 0x1F])"

definition lower_char :: "char \<Rightarrow> char" where
  "lower_char c =
     (case map_of (zip ''ABCDEFGHIJKLMNOPQRSTUVWXYZ'' ''abcdefghijklmnopqrstuvwxyz'') c of
        Some l \<Rightarrow> l
      | None \<Rightarrow> c)"

definition lower :: "string \<Rightarrow> string" where
  "lower s = map lower_char s"

text \<open>\<open>s.strip()\<close>: whitespace removed at both ends.\<close>

definition strip :: "string \<Rightarrow> string" where
  "strip s = rev (dropWhile is_space (rev (dropWhile is_space s)))"

text \<open>\<open>sub in s\<close> on strings: \<open>sub\<close> occurs in \<open>s\<close> as a contiguous run.\<close>

fun contains :: "string \<Rightarrow> string \<Rightarrow> bool" where
  "contains [] sub = (sub = [])"
| "contains (c # cs) sub = (prefix sub (c # cs) \<or> contains cs sub)"

text \<open>\<open>sep.join(parts)\<close>.\<close>

fun join :: "string \<Rightarrow> string list \<Rightarrow> string" where
  "join sep [] = []"
| "join sep [p] = p"
| "join sep (p # q # ps) = p @ sep @ join sep (q # ps)"

section \<open>Chunks\<close>

text \<open>
  A retrieved chunk is a dict; every read in the pipeline is a \<open>.get(key, default)\<close>, so
  each key is an optional field and \<open>None\<close> is the absent key.
\<close>

record chunk =
  chunk_id :: "string option"
  chunk_text :: "string option"
  chunk_source :: "string option"
  distance :: "real option"
  doc_type :: "string option"
  hybrid_score :: "real option"
  bm25_score :: "real option"

definition get_text :: "chunk \<Rightarrow> string" where
  "get_text c = (case chunk_text c of Some t \<Rightarrow> t | None \<Rightarrow> [])"

section \<open>Context Builder (prompt\_utils.py)\<close>

text \<open>
  \<open>sanitize_text\<close>: control characters become spaces, every whitespace run becomes one
  space, and the result is stripped.
\<close>

definition is_control :: "char \<Rightarrow> bool" where
  "is_control c = (c \<in> set [CHR 0x00, CHR 0x01, CHR 0x02, CHR 0x03, CHR 0x04, CHR 0x05,
      CHR 0x06, CHR 0x07, CHR 0x08, CHR 0x0B, CHR 0x0C, CHR 0x0E, CHR 0x0F, CHR 0x10, CHR 0x11,
      CHR 0x12, CHR 0x13, CHR 0x14, CHR 0x15, CHR 0x16, CHR 0x17, CHR 0x18, CHR 0x19, CHR 0x1A,
      CHR 0x1B, CHR 0x1C, CHR 0x1D, CHR 0x1E, CHR 0x1F])"

function collapse_spaces :: "string \<Rightarrow> string" where
  "collapse_spaces [] = []"
| "collapse_spaces (c # cs) =
     (if is_space c then CHR '' '' # collapse_spaces (dropWhile is_space cs)
      else c # collapse_spaces cs)"
  by pat_completeness auto
termination
  by (relation "measure length") (auto simp: length_dropWhile_le le_imp_less_Suc)

definition sanitize_text :: "string \<Rightarrow> string" where
  "sanitize_text t =
     (if t = [] then []
      else strip (collapse_spaces (map (\<lambda>c. if is_control c then CHR '' '' else c) t)))"

definition estimate_tokens :: "string \<Rightarrow> int" where
  "estimate_tokens t = max 1 (int (length t) div 4)"

text \<open>
  The greedy accept loop of \<open>truncate_context_smart\<close>: \<open>tot\<close> is the running
  sum (\<open>total\<close> in the source), the loop breaks at the first chunk that would pass \<open>max_tokens\<close>.
\<close>

fun select_chunks :: "int \<Rightarrow> int \<Rightarrow> chunk list \<Rightarrow> chunk list" where
  "select_chunks tot max_tokens [] = []"
| "select_chunks tot max_tokens (c # cs) =
     (let tok = estimate_tokens (get_text c)
      in if tot + tok > max_tokens then []
         else c # select_chunks (tot + tok) max_tokens cs)"

definition context_part :: "chunk \<Rightarrow> string" where
  "context_part c =
     ''[Source: '' @ (case chunk_source c of Some s \<Rightarrow> s | None \<Rightarrow> ''unknown'') @ '']''
       @ [CHR 0x0A] @ sanitize_text (get_text c) @ [CHR 0x0A]"

definition truncate_context_smart :: "chunk list \<Rightarrow> int \<Rightarrow> string \<times> bool \<times> chunk list" where
  "truncate_context_smart chunks max_tokens =
     (let selected = select_chunks 0 max_tokens chunks;
          parts = map context_part selected;
          context = join [CHR 0x0A] parts
      in (context, length selected < length chunks, selected))"

section \<open>Test cases: JSON values and dicts\<close>

text \<open>
  A test case is the dict that \<open>json.loads\<close> built from the backend's answer: keys are
  strings, values are JSON values. A float keeps the literal it was read from. A dict is an
  association list in insertion order; \<open>d[k] = v\<close> is \<open>AList.update\<close>, which keeps the
  position of an existing key and appends a new one.
\<close>

datatype json =
    JNull
  | JBool bool
  | JInt int
  | JFloat string
  | JStr string
  | JArr "json list"
  | JObj "(string \<times> json) list"

type_synonym dict = "(string \<times> json) list"

datatype py_error = TypeError | AttributeError | KeyError

definition dict_get :: "dict \<Rightarrow> string \<Rightarrow> json option" where
  "dict_get d k = map_of d k"

definition dict_set :: "dict \<Rightarrow> string \<Rightarrow> json \<Rightarrow> dict" where
  "dict_set d k v = AList.update k v d"

text \<open>
  \<open>re.findall(r'\w+', s)\<close>: the maximal runs of word characters, left to right.
\<close>

function words_of :: "string \<Rightarrow> string list" where
  "words_of [] = []"
| "words_of (c # cs) =
     (if is_word_char c then (c # takeWhile is_word_char cs) # words_of (dropWhile is_word_char cs)
      else words_of cs)"
  by pat_completeness auto
termination
  by (relation "measure length") (auto simp: length_dropWhile_le le_imp_less_Suc)

section \<open>Validator: duplicates and test ids (validation.py)\<close>

text \<open>
  \<open>f'TC-{i:03d}'\<close>: the decimal digits of \<open>i\<close>, padded with zeros on the left to
  three characters.
\<close>

function decimal :: "nat \<Rightarrow> string" where
  "decimal n = (if n < 10 then [''0123456789'' ! n] else decimal (n div 10) @ [''0123456789'' ! (n mod 10)])"
  by pat_completeness auto
termination
  by (relation "measure id") auto

definition format_03d :: "nat \<Rightarrow> string" where
  "format_03d i = (let ds = decimal i in replicate (3 - length ds) (CHR ''0'') @ ds)"

text \<open>
  \<open>ensure_unique_test_ids\<close>: \<open>enumerate(test_cases, 1)\<close>; an element that is not a dict
  is left as it is and still counts.
\<close>

fun renumber :: "nat \<Rightarrow> json list \<Rightarrow> json list" where
  "renumber i [] = []"
| "renumber i (tc # tcs) =
     (case tc of
        JObj d \<Rightarrow> JObj (dict_set d ''test_id'' (JStr (''TC-'' @ format_03d i)))
      | _ \<Rightarrow> tc) # renumber (Suc i) tcs"

definition ensure_unique_test_ids :: "json list \<Rightarrow> json list" where
  "ensure_unique_test_ids test_cases = renumber 1 test_cases"


text \<open>
  \<open>' '.join(v)\<close> iterates \<open>v\<close>: the items of a list (each must be a string), the
  characters of a string, the keys of a dict; anything else raises \<open>TypeError\<close>.
\<close>

fun str_of :: "json \<Rightarrow> string option" where
  "str_of (JStr s) = Some s"
| "str_of _ = None"

definition str_items :: "json \<Rightarrow> py_error + string list" where
  "str_items v =
     (case v of
        JArr xs \<Rightarrow> (case those (map str_of xs) of Some ss \<Rightarrow> Inr ss | None \<Rightarrow> Inl TypeError)
      | JStr s \<Rightarrow> Inr (map (\<lambda>c. [c]) s)
      | JObj d \<Rightarrow> Inr (remdups (map fst d))
      | _ \<Rightarrow> Inl TypeError)"

text \<open>
  The text a signature is built from:
  \<open>tc.get('test_scenario','') + ' ' + ' '.join(tc.get('test_steps',[]))\<close>.
\<close>

definition case_text :: "json \<Rightarrow> py_error + string" where
  "case_text tc =
     (case tc of
        JObj d \<Rightarrow>
          (case (case dict_get d ''test_scenario'' of None \<Rightarrow> JStr [] | Some v \<Rightarrow> v) of
             JStr scenario \<Rightarrow>
               (case str_items (case dict_get d ''test_steps'' of None \<Rightarrow> JArr [] | Some v \<Rightarrow> v) of
                  Inl e \<Rightarrow> Inl e
                | Inr steps \<Rightarrow> Inr (scenario @ '' '' @ join '' '' steps))
           | _ \<Rightarrow> Inl TypeError)
      | _ \<Rightarrow> Inl AttributeError)"

text \<open>
  \<open>tuple(sorted(w for w in sig_words if len(w) > 4)[:25])\<close> over the set of words of the
  lowercased text: the distinct words longer than 4, in ascending order, the first 25.
\<close>

definition signature :: "string \<Rightarrow> string list" where
  "signature t = take 25 (sort (remdups (filter (\<lambda>w. length w > 4) (words_of (lower t)))))"

definition case_signature :: "json \<Rightarrow> py_error + string list" where
  "case_signature tc = (case case_text tc of Inl e \<Rightarrow> Inl e | Inr t \<Rightarrow> Inr (signature t))"

text \<open>
  The loop of \<open>detect_semantic_duplicates\<close>; \<open>seen\<close> holds the keys of
  \<open>seen_signatures\<close>.
\<close>

fun dup_loop :: "nat \<Rightarrow> string list list \<Rightarrow> json list \<Rightarrow> py_error + nat list" where
  "dup_loop i seen [] = Inr []"
| "dup_loop i seen (tc # tcs) =
     (case case_signature tc of
        Inl e \<Rightarrow> Inl e
      | Inr sig \<Rightarrow>
          (if sig \<in> set seen
           then (case dup_loop (Suc i) seen tcs of Inl e \<Rightarrow> Inl e | Inr idx \<Rightarrow> Inr (i # idx))
           else dup_loop (Suc i) (sig # seen) tcs))"

definition detect_semantic_duplicates :: "json list \<Rightarrow> py_error + nat list" where
  "detect_semantic_duplicates test_cases = dup_loop 0 [] test_cases"

text \<open>
  The signature as the specification words it, for comparison with \<open>signature\<close>: the 25
  longest distinct words of length above 4 (ties in length in ascending order).
\<close>

definition longest_words_signature :: "string \<Rightarrow> string list" where
  "longest_words_signature t =
     take 25 (sort_key (\<lambda>w. - int (length w))
       (sort (remdups (filter (\<lambda>w. length w > 4) (words_of (lower t))))))"



definition test_id_of :: "json \<Rightarrow> json option" where
  "test_id_of tc = (case tc of JObj d \<Rightarrow> dict_get d ''test_id'' | _ \<Rightarrow> None)"

text \<open>
  generate\_test\_cases.py, lines 519 to 522: the cases at the duplicate indices are filtered out.
\<close>

definition remove_semantic_duplicates :: "json list \<Rightarrow> py_error + json list" where
  "remove_semantic_duplicates validated_cases =
     (case detect_semantic_duplicates validated_cases of
        Inl e \<Rightarrow> Inl e
      | Inr duplicate_indices \<Rightarrow>
          Inr (if duplicate_indices \<noteq> []
               then map snd (filter (\<lambda>(i, tc). i \<notin> set duplicate_indices)
                      (enumerate 0 validated_cases))
               else validated_cases))"

text \<open>The number a digit string stands for, used to show that the ids differ.\<close>

definition digit_val :: "char \<Rightarrow> nat" where
  "digit_val c = (case map_of (zip ''0123456789'' [0..<10]) c of Some d \<Rightarrow> d | None \<Rightarrow> 0)"

definition dec_value :: "string \<Rightarrow> nat" where
  "dec_value s = foldl (\<lambda>a c. 10 * a + digit_val c) 0 s"

section \<open>Strategy Selector (ranking.py)\<close>

text \<open>
  \<open>re.findall(r'\b[a-z0-9]{3,}\b', s)\<close>: a match starts and ends at a word boundary, so
  it is a whole maximal run of word characters; the run matches when it has at least three
  characters, all of them lowercase letters or digits (an underscore or an uppercase letter
  anywhere in the run leaves no boundary to stop at).
\<close>

definition is_term :: "string \<Rightarrow> bool" where
  "is_term w = (3 \<le> length w \<and> list_all (\<lambda>c. is_lower c \<or> is_digit c) w)"

definition find_terms :: "string \<Rightarrow> string list" where
  "find_terms s = filter is_term (words_of s)"

definition common_words :: "string list" where
  "common_words =
     [''test'', ''case'', ''cases'', ''generate'', ''create'', ''make'', ''for'', ''the'', ''and'',
      ''that'', ''this'', ''with'', ''from'', ''will'', ''should'', ''would'', ''could'', ''have'',
      ''been'', ''which'', ''their'', ''what'', ''about'', ''when'', ''where'', ''there'', ''some'',
      ''into'', ''than'', ''them'', ''these'', ''those'', ''your'', ''write'', ''using'', ''verify'',
      ''check'', ''validate'', ''ensure'', ''positive'', ''negative'', ''scenario'', ''step'',
      ''steps'', ''result'', ''expected'', ''outcome'', ''feature'', ''function'', ''system'',
      ''application'']"

definition all_text_of :: "chunk list \<Rightarrow> string" where
  "all_text_of chunks = lower (join '' '' (map get_text chunks))"

text \<open>\<open>prompt_domain_terms\<close>: the set of terms of the lowercased prompt, minus the stop words.\<close>

definition prompt_domain_terms :: "string \<Rightarrow> string list" where
  "prompt_domain_terms prompt =
     filter (\<lambda>t. t \<notin> set common_words) (remdups (find_terms (lower prompt)))"

definition matched_terms :: "chunk list \<Rightarrow> string \<Rightarrow> nat" where
  "matched_terms chunks prompt =
     length (filter (\<lambda>t. contains (all_text_of chunks) t) (prompt_domain_terms prompt))"

text \<open>
  \<open>matched_terms / len(prompt_domain_terms) if prompt_domain_terms else 0\<close>. The quotient
  is a real number here and a binary64 float in the source; the comparison with \<open>0.3\<close>
  agrees on both as long as the prompt has fewer than \<open>2^50\<close> terms.
\<close>

definition domain_overlap_ratio :: "chunk list \<Rightarrow> string \<Rightarrow> real" where
  "domain_overlap_ratio chunks prompt =
     (if prompt_domain_terms prompt \<noteq> []
      then real (matched_terms chunks prompt) / real (length (prompt_domain_terms prompt))
      else 0)"

text \<open>
  \<open>re.findall(r'\$\d+|\d+%|[A-Z]{2,}\d+|P\d{3}', all_text)\<close> is non-empty exactly when
  some position of the text starts one of: a dollar sign and a digit; a digit and a percent
  sign; two uppercase letters and a digit; \<open>P\<close> and three digits.
\<close>

fun specifics_here :: "string \<Rightarrow> bool" where
  "specifics_here (c1 # c2 # rest) =
     ((c1 = CHR ''$'' \<and> is_digit c2) \<or>
      (is_digit c1 \<and> c2 = CHR ''%'') \<or>
      (is_upper c1 \<and> is_upper c2 \<and> (case rest of c3 # _ \<Rightarrow> is_digit c3 | [] \<Rightarrow> False)) \<or>
      (c1 = CHR ''P'' \<and> is_digit c2 \<and>
         (case rest of c3 # c4 # _ \<Rightarrow> is_digit c3 \<and> is_digit c4 | _ \<Rightarrow> False)))"
| "specifics_here _ = False"

fun has_specifics :: "string \<Rightarrow> bool" where
  "has_specifics [] = False"
| "has_specifics (c # cs) = (specifics_here (c # cs) \<or> has_specifics cs)"

definition has_rules :: "string \<Rightarrow> bool" where
  "has_rules all_text =
     list_ex (\<lambda>kw. contains all_text kw)
       [''must be'', ''should be'', ''required field'', ''limit'', ''constraint'',
        ''validation'', ''error message'', ''minimum'', ''maximum'']"

definition has_examples :: "string \<Rightarrow> bool" where
  "has_examples all_text =
     list_ex (\<lambda>kw. contains all_text kw) [''example'', ''e.g.'', ''for instance'', ''such as'']"

text \<open>
  The recommendation is a message built from a fixed template and the numbers named here;
  the model keeps the template and the numbers, not the formatted text.
\<close>

datatype recommendation =
    No_Relevant_Documentation
  | Out_Of_Domain real
  | Quality_Too_Low real real
  | Low_Confidence
  | Moderate_Confidence
  | High_Confidence

record generation_strategy =
  strategy :: string
  confidence :: real
  recommendation :: recommendation
  should_proceed :: bool
  domain_relevance :: "real option"
  has_specific_values :: "bool option"
  has_validation_rules :: "bool option"
  has_examples_flag :: "bool option"

definition avg_score :: "chunk list \<Rightarrow> real" where
  "avg_score chunks =
     (if chunks \<noteq> []
      then sum_list (map (\<lambda>c. case hybrid_score c of Some s \<Rightarrow> s | None \<Rightarrow> 0) chunks)
             / real (length chunks)
      else 0)"

definition adaptive_test_generation_strategy :: "chunk list \<Rightarrow> string \<Rightarrow> generation_strategy" where
  "adaptive_test_generation_strategy chunks prompt =
     (if chunks = [] then
        \<lparr>strategy = ''abort'', confidence = 0, recommendation = No_Relevant_Documentation,
         should_proceed = False, domain_relevance = None, has_specific_values = None,
         has_validation_rules = None, has_examples_flag = None\<rparr>
      else
        let all_text = all_text_of chunks;
            ratio = domain_overlap_ratio chunks prompt
        in if ratio < 3 / 10 then
             \<lparr>strategy = ''abort'', confidence = 0, recommendation = Out_Of_Domain ratio,
              should_proceed = False, domain_relevance = Some ratio, has_specific_values = None,
              has_validation_rules = None, has_examples_flag = None\<rparr>
           else
             let specifics = has_specifics all_text;
                 rules = has_rules all_text;
                 examples = has_examples all_text;
                 conf = min 1 (ratio * (1 / 2) + avg_score chunks * (1 / 4)
                          + (if specifics then 15 / 100 else 0)
                          + (if rules then 8 / 100 else 0)
                          + (if examples then 2 / 100 else 0));
                 (strat, recom, proceed) =
                   (if conf < 4 / 10 then (''abort'', Quality_Too_Low conf ratio, False)
                    else if conf < 6 / 10 then (''minimal'', Low_Confidence, True)
                    else if conf < 8 / 10 then (''standard'', Moderate_Confidence, True)
                    else (''comprehensive'', High_Confidence, True))
             in \<lparr>strategy = strat, confidence = conf, recommendation = recom,
                 should_proceed = proceed, domain_relevance = None,
                 has_specific_values = Some specifics, has_validation_rules = Some rules,
                 has_examples_flag = Some examples\<rparr>)"

section \<open>Hybrid Ranker (ranking.py)\<close>

text \<open>
  What the ranker reads from outside: the corpus statistics loaded from
  \<open>logs/corpus_stats.json\<close> into the globals \<open>TOTAL_DOCS\<close> and \<open>DF_MAP\<close>, and the
  semantic matcher's document classifier (\<open>None\<close> when the call raises). Scores are
  binary64 floats in the source. Here the subtraction that gives the embedding component is
  rounded to binary64 as the source's is; the products and sums after it are taken in exact
  real arithmetic, where the source rounds each of them.
\<close>

record ranker_env =
  total_docs :: nat
  df_map :: "string \<Rightarrow> nat option"
  matcher_doc_type :: "string \<Rightarrow> string option"

definition calculate_bm25_score :: "ranker_env \<Rightarrow> string \<Rightarrow> string \<Rightarrow> real" where
  "calculate_bm25_score env query document =
     (let k1 = 3 / 2; b = 3 / 4;
          query_terms = remdups (words_of (lower query));
          doc_terms = words_of (lower document);
          doc_length = real (length doc_terms);
          avg_doc_length = 500;
          total_docs_for_idf = real (max (total_docs env) 1)
      in sum_list (map (\<lambda>term.
           let tf = real (count_list doc_terms term)
           in if tf > 0
              then let df = real (case df_map env term of Some n \<Rightarrow> n | None \<Rightarrow> 0);
                       idf = ln ((1 + total_docs_for_idf) / (1 + df)) + 1;
                       numerator = tf * (k1 + 1);
                       denominator = tf + k1 * (1 - b + b * (doc_length / avg_doc_length))
                   in idf * (numerator / denominator)
              else 0) query_terms))"

definition classify_document_type :: "ranker_env \<Rightarrow> string \<Rightarrow> string" where
  "classify_document_type env source =
     (case matcher_doc_type env source of
        Some t \<Rightarrow> t
      | None \<Rightarrow>
          (let source_lower = lower source
           in if contains source_lower ''spec'' \<or> contains source_lower ''requirement''
              then ''specification''
              else if contains source_lower ''validation'' \<or> contains source_lower ''rule''
              then ''validation_rules''
              else if contains source_lower ''api'' then ''api_documentation''
              else if contains source_lower ''ui'' \<or> contains source_lower ''ux''
              then ''ui_guidelines''
              else ''general''))"

record weights =
  w_embedding :: real
  w_bm25 :: real
  w_metadata :: real
  w_phrase :: real

definition default_weights :: weights where
  "default_weights =
     \<lparr>w_embedding = 50 / 100, w_bm25 = 30 / 100, w_metadata = 15 / 100, w_phrase = 5 / 100\<rparr>"

definition doc_type_weight :: "string \<Rightarrow> real" where
  "doc_type_weight t =
     (case map_of [(''specification'', 15 / 10), (''validation_rules'', 14 / 10),
                   (''api_documentation'', 13 / 10), (''ui_guidelines'', 11 / 10),
                   (''general'', 1)] t of
        Some w \<Rightarrow> w
      | None \<Rightarrow> 1)"

text \<open>\<open>s.split()\<close>: the maximal runs of characters that are not whitespace.\<close>

function split_ws :: "string \<Rightarrow> string list" where
  "split_ws [] = []"
| "split_ws (c # cs) =
     (if is_space c then split_ws cs
      else (c # takeWhile (\<lambda>x. \<not> is_space x) cs) # split_ws (dropWhile (\<lambda>x. \<not> is_space x) cs))"
  by pat_completeness auto
termination
  by (relation "measure length") (auto simp: length_dropWhile_le le_imp_less_Suc)

text \<open>The adjacent pairs \<open>query_words[i] query_words[i+1]\<close>.\<close>

fun bigrams :: "string list \<Rightarrow> string list" where
  "bigrams (w1 # w2 # ws) = (w1 @ '' '' @ w2) # bigrams (w2 # ws)"
| "bigrams _ = []"

text \<open>
  Binary64 rounding of a real number: the nearest number with a significand of 53 bits, a
  tie going to the even significand (\<open>round_even\<close>). The spacing of the binary64 numbers
  around \<open>x\<close> is 2 to the power \<open>ulp_exponent x\<close>: 52 below the exponent of \<open>x\<close>,
  and never below -1074, the spacing of the subnormal numbers. Overflow to infinity is left
  out: the difference of 1.0 and a finite binary64 number never reaches it.
\<close>

definition round_even :: "real \<Rightarrow> int" where
  "round_even y =
     (let f = \<lfloor>y\<rfloor>
      in if y - of_int f < 1 / 2 then f
         else if y - of_int f > 1 / 2 then f + 1
         else if even f then f else f + 1)"

definition ulp_exponent :: "real \<Rightarrow> int" where
  "ulp_exponent x = max \<lfloor>log 2 \<bar>x\<bar>\<rfloor> (- 1022) - 52"

definition round_binary64 :: "real \<Rightarrow> real" where
  "round_binary64 x =
     (if x = 0 then 0
      else of_int (round_even (x / 2 powr of_int (ulp_exponent x))) * 2 powr of_int (ulp_exponent x))"

text \<open>
  \<open>embedding_score = chunk.get("distance", 1.0)\<close>, then
  \<open>embedding_score = 1.0 - embedding_score\<close>: the component that enters the weighted sum.
  The distance is a finite float.
\<close>

definition chunk_distance :: "chunk \<Rightarrow> real" where
  "chunk_distance c = (case distance c of Some d \<Rightarrow> d | None \<Rightarrow> 1)"

definition embedding_score :: "chunk \<Rightarrow> real" where
  "embedding_score c = round_binary64 (1 - chunk_distance c)"

definition bm25_normalized :: "ranker_env \<Rightarrow> string \<Rightarrow> chunk \<Rightarrow> real" where
  "bm25_normalized env query c = min 1 (calculate_bm25_score env query (get_text c) / 10)"

definition metadata_score :: "chunk \<Rightarrow> real" where
  "metadata_score c =
     1 / 2 + (if length (get_text c) > 100 then 2 / 10 else 0)
           + (if length (get_text c) > 500 then 1 / 10 else 0)"

definition phrase_score :: "string \<Rightarrow> chunk \<Rightarrow> real" where
  "phrase_score query c =
     min 1 (real (length (filter (\<lambda>phrase. contains (lower (get_text c)) phrase)
                    (bigrams (split_ws (lower query))))) * (1 / 4))"

definition chunk_doc_type :: "ranker_env \<Rightarrow> chunk \<Rightarrow> string" where
  "chunk_doc_type env c =
     classify_document_type env (case chunk_source c of Some s \<Rightarrow> s | None \<Rightarrow> [])"

definition chunk_hybrid_score :: "ranker_env \<Rightarrow> weights \<Rightarrow> string \<Rightarrow> chunk \<Rightarrow> real" where
  "chunk_hybrid_score env ws query c =
     (embedding_score c * w_embedding ws
      + bm25_normalized env query c * w_bm25 ws
      + metadata_score c * w_metadata ws
      + phrase_score query c * w_phrase ws) * doc_type_weight (chunk_doc_type env c)"

text \<open>
  One turn of the loop on one chunk: \<open>new_chunk = dict(chunk)\<close> and the three keys
  written to the copy.
\<close>

definition rank_chunk :: "ranker_env \<Rightarrow> weights \<Rightarrow> string \<Rightarrow> chunk \<Rightarrow> chunk" where
  "rank_chunk env ws query c =
     c\<lparr>doc_type := Some (chunk_doc_type env c),
       hybrid_score := Some (chunk_hybrid_score env ws query c),
       bm25_score := Some (calculate_bm25_score env query (get_text c))\<rparr>"

text \<open>
  \<open>sort(key=..., reverse=True)\<close> is stable: chunks of equal score keep their order, as
  an insertion sort on the negated key does.
\<close>

definition sort_key_of :: "chunk \<Rightarrow> real" where
  "sort_key_of c = - (case hybrid_score c of Some s \<Rightarrow> s | None \<Rightarrow> 0)"

definition hybrid_rank_chunks :: "ranker_env \<Rightarrow> chunk list \<Rightarrow> string \<Rightarrow> weights option \<Rightarrow> chunk list" where
  "hybrid_rank_chunks env chunks query weights_arg =
     (let ws = (case weights_arg of None \<Rightarrow> default_weights | Some w \<Rightarrow> w)
      in sort_key sort_key_of (map (rank_chunk env ws query) chunks))"

subsection \<open>The ranker on a store of objects\<close>

text \<open>
  To speak of mutation, the same function on an explicit store: an object is a chunk dict
  or a list of references, a reference is an index into the store, allocation appends a new
  object, and assignment overwrites the object at a reference. The function takes the
  reference of the input list and returns the store after the call with the reference of
  the ranked list, or the error raised.
\<close>

datatype obj = Dict chunk | List "nat list"

type_synonym store = "obj list"

definition alloc :: "store \<Rightarrow> obj \<Rightarrow> store \<times> nat" where
  "alloc h ob = (h @ [ob], length h)"

definition lookup :: "store \<Rightarrow> nat \<Rightarrow> obj option" where
  "lookup h a = (if a < length h then Some (h ! a) else None)"

definition assign :: "store \<Rightarrow> nat \<Rightarrow> obj \<Rightarrow> store" where
  "assign h a ob = h[a := ob]"

datatype rank_error = Not_A_Dict | Not_A_List | Dangling

text \<open>
  The loop body on the store: read the chunk, allocate its copy, write the three keys to the
  copy, append the copy's reference to \<open>ranked_chunks\<close> (the list at \<open>r\<close>).
\<close>

fun rank_loop :: "ranker_env \<Rightarrow> weights \<Rightarrow> string \<Rightarrow> nat \<Rightarrow> store \<Rightarrow> nat list \<Rightarrow> store \<times> rank_error option" where
  "rank_loop env ws query r h [] = (h, None)"
| "rank_loop env ws query r h (a # as) =
     (case lookup h a of
        None \<Rightarrow> (h, Some Dangling)
      | Some (List _) \<Rightarrow> (h, Some Not_A_Dict)
      | Some (Dict chunk) \<Rightarrow>
          (let (h1, new_chunk) = alloc h (Dict chunk);
               h2 = assign h1 new_chunk (Dict (chunk\<lparr>doc_type := Some (chunk_doc_type env chunk)\<rparr>));
               scored = rank_chunk env ws query chunk;
               h3 = assign h2 new_chunk (Dict scored)
           in case lookup h3 r of
                Some (List ranked) \<Rightarrow>
                  rank_loop env ws query r (assign h3 r (List (ranked @ [new_chunk]))) as
              | Some (Dict _) \<Rightarrow> (h3, Some Not_A_List)
              | None \<Rightarrow> (h3, Some Dangling)))"

definition key_at :: "store \<Rightarrow> nat \<Rightarrow> real" where
  "key_at h a = (case lookup h a of Some (Dict c) \<Rightarrow> sort_key_of c | _ \<Rightarrow> 0)"

definition hybrid_rank_chunks_store :: "ranker_env \<Rightarrow> store \<Rightarrow> nat \<Rightarrow> string \<Rightarrow> weights option \<Rightarrow> store \<times> (rank_error + nat)" where
  "hybrid_rank_chunks_store env h chunks query weights_arg =
     (let ws = (case weights_arg of None \<Rightarrow> default_weights | Some w \<Rightarrow> w)
      in case lookup h chunks of
           None \<Rightarrow> (h, Inl Dangling)
         | Some (Dict _) \<Rightarrow> (h, Inl Not_A_List)
         | Some (List refs) \<Rightarrow>
             (let (h0, ranked_chunks) = alloc h (List []);
                  (h1, err) = rank_loop env ws query ranked_chunks h0 refs
              in case err of
                   Some e \<Rightarrow> (h1, Inl e)
                 | None \<Rightarrow>
                     (case lookup h1 ranked_chunks of
                        Some (List ranked) \<Rightarrow>
                          (assign h1 ranked_chunks (List (sort_key (key_at h1) ranked)),
                           Inr ranked_chunks)
                      | _ \<Rightarrow> (h1, Inl Not_A_List))))"

text \<open>
  The list at \<open>r\<close> holds only references allocated after \<open>r\<close> itself.
\<close>

definition fresh_list :: "store \<Rightarrow> nat \<Rightarrow> bool" where
  "fresh_list h r =
     (case lookup h r of
        Some (List ranked) \<Rightarrow> list_all (\<lambda>a. r < a \<and> a < length h) ranked
      | _ \<Rightarrow> False)"

section \<open>Semantic matcher and deterministic step mapper\<close>

text \<open>
  What the mapper reads from outside: the cosine similarity of the embeddings of two texts
  (\<open>None\<close> when computing it raises), and the later rules of the cascade
  (deterministic\_selenium\_generator.py, lines 518 to 907: select, checkbox, input, radio,
  button, generic match and final action). The later rules read the cleaned step, the body
  emitted so far and the set of fields already filled; every write they make to the body is
  a \<open>body.append\<close>, so they are taken as a function that returns the lines they
  append and the updated set of filled fields. The properties below hold whatever these two
  are.
\<close>

record matcher_env =
  similarity :: "string \<Rightarrow> string \<Rightarrow> real option"

record mapper_env = matcher_env +
  later_rules :: "string \<Rightarrow> string list \<times> string list \<Rightarrow> string list \<times> string list"

definition verification_intents :: "string list" where
  "verification_intents =
     [''verify check assert validate confirm'',
      ''ensure make sure that if whether'',
      ''expect should must display show'',
      ''see observe notice detect'',
      ''error message warning alert notification'',
      ''success confirmation completed finished'',
      ''disabled enabled visible hidden'',
      ''displayed shown appears rendered'',
      ''applied correctly successfully properly'']"

definition action_intents :: "string list" where
  "action_intents =
     [''click press tap submit'',
      ''fill enter type input'',
      ''select choose pick opt'',
      ''open close start stop'']"

text \<open>
  The loop \<open>m = 0.0; for intent in intents: m = max(m, similarity)\<close>; \<open>None\<close> when an
  embedding or a similarity raises.
\<close>

definition max_similarity :: "'a matcher_env_scheme \<Rightarrow> string \<Rightarrow> string list \<Rightarrow> real option" where
  "max_similarity env s intents =
     (case those (map (similarity env s) intents) of
        None \<Rightarrow> None
      | Some sims \<Rightarrow> Some (foldl max 0 sims))"

definition has_check_literal :: "string \<Rightarrow> bool" where
  "has_check_literal step_lower =
     list_ex (\<lambda>pattern. contains step_lower pattern) [''check if'', ''check that'', ''check whether'']"

text \<open>
  \<open>SemanticMatcher.is_verification_step\<close>; the \<open>except\<close> branch returns
  \<open>(False, 0.0)\<close>.
\<close>

definition is_verification_step :: "'a matcher_env_scheme \<Rightarrow> string \<Rightarrow> bool \<times> real" where
  "is_verification_step env step_text =
     (let step_lower = strip (lower step_text)
      in if has_check_literal step_lower then (True, 95 / 100)
         else (case max_similarity env step_lower verification_intents of
                 None \<Rightarrow> (False, 0)
               | Some max_verification_similarity \<Rightarrow>
                   (case max_similarity env step_lower action_intents of
                      None \<Rightarrow> (False, 0)
                    | Some max_action_similarity \<Rightarrow>
                        (max_verification_similarity > 30 / 100 \<and>
                         max_verification_similarity > max_action_similarity + 8 / 100,
                         max_verification_similarity))))"

text \<open>
  \<open>re.sub(r'^\d+\.?\s*', '', step)\<close>: a leading number, an optional dot after it and
  the whitespace that follows are removed; a step that does not start with a digit is left
  as it is.
\<close>

definition clean_step :: "string \<Rightarrow> string" where
  "clean_step step =
     (case step of
        [] \<Rightarrow> []
      | c # cs \<Rightarrow>
          (if is_digit c
           then (let after_digits = dropWhile is_digit cs;
                     after_dot = (case after_digits of
                                    d # rest \<Rightarrow> if d = CHR ''.'' then rest else after_digits
                                  | [] \<Rightarrow> [])
                 in dropWhile is_space after_dot)
           else step))"

definition verification_placeholder :: "string \<Rightarrow> string list" where
  "verification_placeholder cleaned =
     [''    # VERIFICATION: '' @ cleaned,
      ''    # TODO: Implement assertion for this verification step'',
      '''']"

text \<open>
  One turn of the loop of \<open>_generate_generic_fallback\<close> on one step, from the body and
  the filled fields before it to those after it: the verification test comes first and ends
  the turn (\<open>continue\<close>); only otherwise are the later rules tried, and what they emit is
  appended.
\<close>

definition process_step :: "mapper_env \<Rightarrow> string list \<times> string list \<Rightarrow> string \<Rightarrow> string list \<times> string list" where
  "process_step env st step =
     (let cleaned = clean_step step;
          (is_verification, verification_confidence) = is_verification_step env cleaned
      in if is_verification \<and> verification_confidence > 30 / 100
         then (fst st @ verification_placeholder cleaned, snd st)
         else (let (appended, filled_fields) = later_rules env cleaned st
               in (fst st @ appended, filled_fields)))"

definition generate_generic_fallback :: "mapper_env \<Rightarrow> string list \<Rightarrow> string list" where
  "generate_generic_fallback env steps = fst (foldl (process_step env) ([], []) steps)"

text \<open>
  The body is a list of strings that the callers join with a line feed into the text of the
  test function (\<open>"\n".join(test)\<close>, lines 334 and 358). What Python then reads are
  the physical lines of that text: a line ends at a line feed or at a carriage return (a
  carriage return followed by a line feed counts here as two ends with an empty line
  between them, which changes nothing for what follows). An element of the body that holds
  a line break is more than one physical line.
\<close>

definition is_line_end :: "char \<Rightarrow> bool" where
  "is_line_end c = (c = CHR 0x0A \<or> c = CHR 0x0D)"

definition physical_lines :: "string \<Rightarrow> string list" where
  "physical_lines s =
     foldr (\<lambda>c ls. if is_line_end c then [] # ls
                   else (case ls of [] \<Rightarrow> [[c]] | l # rest \<Rightarrow> (c # l) # rest)) s [[]]"

definition script_lines :: "string list \<Rightarrow> string list" where
  "script_lines body = physical_lines (join [CHR 0x0A] body)"

text \<open>
  A physical line that performs no action on the page: an empty line, or a comment (spaces,
  then \<open>#\<close>).
\<close>

definition is_comment_or_blank :: "string \<Rightarrow> bool" where
  "is_comment_or_blank line =
     (case dropWhile (\<lambda>c. c = CHR '' '') line of [] \<Rightarrow> True | c # _ \<Rightarrow> c = CHR ''#'')"

section \<open>Validator: schema and hallucination check (validation.py)\<close>

text \<open>
  What the validator reads from outside: Python's \<open>str()\<close> of a value that is not a
  string (used where a field that should be text holds something else), the semantic
  matcher's verdict \<open>is_validation_context_zero_cost\<close> on the context text, and the
  verdict of \<open>has_verbatim_evidence\<close> (validation.py, lines 103 to 121, a scan of
  \<open>json.dumps\<close> of the case), which only decides the \<open>needs_review\<close> mark.
\<close>

record validator_env =
  py_repr :: "json \<Rightarrow> string"
  zero_cost_context :: "string \<Rightarrow> bool"
  has_verbatim_evidence :: "dict \<Rightarrow> chunk list \<Rightarrow> bool"

definition py_str :: "validator_env \<Rightarrow> json \<Rightarrow> string" where
  "py_str env v = (case v of JStr s \<Rightarrow> s | _ \<Rightarrow> py_repr env v)"

text \<open>
  Truthiness. A float is false when it is zero: its literal has digits before the
  exponent and none of them is nonzero.
\<close>

definition float_is_zero :: "string \<Rightarrow> bool" where
  "float_is_zero lit =
     (let mantissa = takeWhile (\<lambda>c. c \<noteq> CHR ''e'' \<and> c \<noteq> CHR ''E'') lit
      in list_ex is_digit mantissa \<and> \<not> list_ex (\<lambda>c. c \<in> set ''123456789'') mantissa)"

fun truthy :: "json \<Rightarrow> bool" where
  "truthy JNull = False"
| "truthy (JBool b) = b"
| "truthy (JInt i) = (i \<noteq> 0)"
| "truthy (JFloat lit) = (\<not> float_is_zero lit)"
| "truthy (JStr s) = (s \<noteq> [])"
| "truthy (JArr xs) = (xs \<noteq> [])"
| "truthy (JObj d) = (d \<noteq> [])"

definition get_truthy :: "dict \<Rightarrow> string \<Rightarrow> bool" where
  "get_truthy d k = (case dict_get d k of None \<Rightarrow> False | Some v \<Rightarrow> truthy v)"

text \<open>The maximal runs of characters that satisfy \<open>P\<close>, left to right.\<close>

function runs :: "(char \<Rightarrow> bool) \<Rightarrow> string \<Rightarrow> string list" where
  "runs P [] = []"
| "runs P (c # cs) =
     (if P c then (c # takeWhile P cs) # runs P (dropWhile P cs) else runs P cs)"
  by pat_completeness auto
termination
  by (relation "measure (\<lambda>(P, s). length s)") (auto simp: length_dropWhile_le le_imp_less_Suc)

definition required :: "string list" where
  "required = [''test_id'', ''feature'', ''test_scenario'', ''test_steps'', ''expected_result'',
               ''test_type'', ''priority'']"

definition fill_required :: "dict \<Rightarrow> dict \<times> string list" where
  "fill_required test_case =
     foldl (\<lambda>(tc, issues) f.
              if \<not> get_truthy tc f
              then (dict_set tc f (JStr (''[MISSING: '' @ f @ '']'')), issues @ [''missing:'' @ f])
              else (tc, issues))
       (test_case, []) required"

text \<open>
  \<open>[s.strip() for s in re.split(r'[\n;]+', raw) if s.strip()][:6] or ["Step 1", "Step 2"]\<close>
\<close>

definition split_steps :: "string \<Rightarrow> string list" where
  "split_steps raw =
     (let parts = take 6 (filter (\<lambda>s. s \<noteq> [])
                    (map strip (runs (\<lambda>c. c \<noteq> CHR 0x0A \<and> c \<noteq> CHR '';'') raw)))
      in if parts = [] then [''Step 1'', ''Step 2''] else parts)"

definition coerce_steps :: "validator_env \<Rightarrow> dict \<Rightarrow> dict" where
  "coerce_steps env tc =
     (case dict_get tc ''test_steps'' of
        Some (JArr xs) \<Rightarrow> tc
      | other \<Rightarrow>
          dict_set tc ''test_steps''
            (JArr (map JStr (split_steps
               (py_str env (case other of None \<Rightarrow> JStr [] | Some v \<Rightarrow> v))))))"

text \<open>
  \<open>v not in {...}\<close> on a set of strings hashes \<open>v\<close>: a list or a dict raises
  \<open>TypeError\<close>.
\<close>

definition coerce_enum :: "string \<Rightarrow> string list \<Rightarrow> string \<Rightarrow> dict \<Rightarrow> py_error + dict" where
  "coerce_enum key allowed dflt tc =
     (case dict_get tc key of
        Some (JArr xs) \<Rightarrow> Inl TypeError
      | Some (JObj d) \<Rightarrow> Inl TypeError
      | Some (JStr s) \<Rightarrow> Inr (if s \<in> set allowed then tc else dict_set tc key (JStr dflt))
      | _ \<Rightarrow> Inr (dict_set tc key (JStr dflt)))"

text \<open>Lines 33 to 47: the schema enforcement, with the issues recorded.\<close>

definition enforce_schema :: "validator_env \<Rightarrow> dict \<Rightarrow> chunk list \<Rightarrow> py_error + dict \<times> string list" where
  "enforce_schema env test_case retrieved_chunks =
     (let (tc, issues) = fill_required test_case;
          tc = coerce_steps env tc
      in case coerce_enum ''test_type'' [''positive'', ''negative'', ''boundary'', ''edge_case'']
                ''positive'' tc of
           Inl e \<Rightarrow> Inl e
         | Inr tc \<Rightarrow>
             (case coerce_enum ''priority'' [''high'', ''medium'', ''low''] ''medium'' tc of
                Inl e \<Rightarrow> Inl e
              | Inr tc \<Rightarrow>
                  Inr (if \<not> get_truthy tc ''grounded_in''
                       then dict_set tc ''grounded_in''
                              (JStr (case retrieved_chunks of
                                       [] \<Rightarrow> ''document.txt''
                                     | c # _ \<Rightarrow> (case chunk_source c of
                                                    Some s \<Rightarrow> s | None \<Rightarrow> ''unknown'')))
                       else tc, issues)))"

text \<open>
  Line 49: \<open>f"{scenario} {expected_result} {' '.join(test_steps)}"\<close>.
\<close>

definition content_text :: "validator_env \<Rightarrow> dict \<Rightarrow> py_error + string" where
  "content_text env tc =
     (case str_items (case dict_get tc ''test_steps'' of None \<Rightarrow> JArr [] | Some v \<Rightarrow> v) of
        Inl e \<Rightarrow> Inl e
      | Inr steps \<Rightarrow>
          Inr (py_str env (case dict_get tc ''test_scenario'' of None \<Rightarrow> JStr [] | Some v \<Rightarrow> v)
               @ '' ''
               @ py_str env (case dict_get tc ''expected_result'' of None \<Rightarrow> JStr [] | Some v \<Rightarrow> v)
               @ '' '' @ join '' '' steps))"

text \<open>
  The three patterns of \<open>VALIDATION_PATTERNS\<close> (config.py), in the order of the dict.

  \<open>re.findall(r'\$\d+(?:\.\d{2})?', s)\<close>: a dollar sign, all the digits that follow (at
  least one), and a dot with two digits when they come next.
\<close>

definition price_decimals :: "string \<Rightarrow> string \<times> string" where
  "price_decimals rest =
     (case rest of
        p # d1 # d2 # rest' \<Rightarrow>
          if p = CHR ''.'' \<and> is_digit d1 \<and> is_digit d2 then ([p, d1, d2], rest') else ([], rest)
      | _ \<Rightarrow> ([], rest))"

function find_prices :: "string \<Rightarrow> string list" where
  "find_prices [] = []"
| "find_prices (c # cs) =
     (if c = CHR ''$'' \<and> takeWhile is_digit cs \<noteq> []
      then (c # takeWhile is_digit cs @ fst (price_decimals (dropWhile is_digit cs)))
             # find_prices (snd (price_decimals (dropWhile is_digit cs)))
      else find_prices cs)"
  by pat_completeness auto
termination
proof (relation "measure length", goal_cases)
  case 1
  show ?case by simp
next
  case (2 c cs)
  have "length (snd (price_decimals (dropWhile is_digit cs))) \<le> length (dropWhile is_digit cs)"
    by (simp add: price_decimals_def split: list.splits)
  also have "\<dots> \<le> length cs" by (rule length_dropWhile_le)
  finally show ?case by simp
next
  case (3 c cs)
  show ?case by simp
qed

text \<open>
  \<open>re.findall(r'\d+%', s)\<close>: a maximal run of digits followed by a percent sign.
\<close>

function find_percentages :: "string \<Rightarrow> string list" where
  "find_percentages [] = []"
| "find_percentages (c # cs) =
     (if is_digit c
      then (if prefix ''%'' (dropWhile is_digit cs)
            then (c # takeWhile is_digit cs @ ''%'') # find_percentages (tl (dropWhile is_digit cs))
            else find_percentages (dropWhile is_digit cs))
      else find_percentages cs)"
  by pat_completeness auto
termination
proof (relation "measure length", goal_cases)
  case 1
  show ?case by simp
next
  case (2 c cs)
  have "length (tl (dropWhile is_digit cs)) \<le> length (dropWhile is_digit cs)" by simp
  also have "\<dots> \<le> length cs" by (rule length_dropWhile_le)
  finally show ?case by simp
next
  case (3 c cs)
  have "length (dropWhile is_digit cs) \<le> length cs" by (rule length_dropWhile_le)
  then show ?case by simp
next
  case (4 c cs)
  show ?case by simp
qed
text \<open>
  \<open>re.findall(r'\b[A-Z][A-Z0-9]{3,}\b', s)\<close>: a match starts and ends at a word
  boundary, so it is a whole maximal run of word characters; the run matches when it has
  at least four characters, starts with an uppercase letter and goes on with uppercase
  letters and digits only.
\<close>

definition is_code :: "string \<Rightarrow> bool" where
  "is_code w =
     (case w of
        [] \<Rightarrow> False
      | c # cs \<Rightarrow> is_upper c \<and> 3 \<le> length cs \<and> list_all (\<lambda>x. is_upper x \<or> is_digit x) cs)"

definition find_codes :: "string \<Rightarrow> string list" where
  "find_codes s = filter is_code (words_of s)"

datatype pattern_name = Price | Percentage | Code

definition blacklist :: "pattern_name \<Rightarrow> string list" where
  "blacklist ptype =
     (case ptype of
        Code \<Rightarrow> [''STEP'', ''TEST'', ''HTTP'', ''JSON'', ''NOTE'', ''TODO'', ''FAIL'', ''PASS'',
                 ''MISSING'', ''POST'', ''GET'', ''PUT'', ''DELETE'', ''TRUE'', ''FALSE'', ''NULL'']
      | _ \<Rightarrow> [])"

text \<open>The values the two nested loops visit, each with the name of its pattern.\<close>

definition extracted_tokens :: "string \<Rightarrow> (pattern_name \<times> string) list" where
  "extracted_tokens content =
     map (Pair Price) (find_prices content)
     @ map (Pair Percentage) (find_percentages content)
     @ map (Pair Code) (find_codes content)"

text \<open>
  The value looked up in the context: the token lowercased, and for a price that ends in
  \<open>.00\<close> without these three characters.
\<close>

definition check_value :: "pattern_name \<times> string \<Rightarrow> string" where
  "check_value tok =
     (let check_val = lower (snd tok)
      in if fst tok = Price \<and> suffix ''.00'' check_val
         then take (length check_val - 3) check_val
         else check_val)"

text \<open>The body of the inner loop: whether the value is appended to \<open>fabricated\<close>.\<close>

definition fabricated_token :: "validator_env \<Rightarrow> dict \<Rightarrow> string \<Rightarrow> pattern_name \<times> string \<Rightarrow> bool" where
  "fabricated_token env tc context_text tok =
     (if snd tok \<in> set (blacklist (fst tok)) then False
      else if fst tok = Code \<and> dict_get tc ''test_type'' = Some (JStr ''negative'') then False
      else if fst tok = Price \<and> check_value tok = ''$0'' \<and> zero_cost_context env context_text
      then False
      else \<not> contains context_text (check_value tok))"

definition fabricated_values :: "validator_env \<Rightarrow> dict \<Rightarrow> string \<Rightarrow> string \<Rightarrow> string list" where
  "fabricated_values env tc context_text content =
     map snd (filter (fabricated_token env tc context_text) (extracted_tokens content))"

definition validate_test_case_schema :: "validator_env \<Rightarrow> dict \<Rightarrow> chunk list \<Rightarrow> py_error + dict \<times> string list" where
  "validate_test_case_schema env test_case retrieved_chunks =
     (case enforce_schema env test_case retrieved_chunks of
        Inl e \<Rightarrow> Inl e
      | Inr (tc, issues) \<Rightarrow>
          (let context_text = all_text_of retrieved_chunks
           in case content_text env tc of
                Inl e \<Rightarrow> Inl e
              | Inr content \<Rightarrow>
                  (let fabricated = fabricated_values env tc context_text content
                   in if fabricated \<noteq> []
                      then Inr (dict_set (dict_set tc ''_action'' (JStr ''drop''))
                                  ''_hallucination_warning''
                                  (JStr (''fabricated: '' @ join '', '' (take 5 fabricated))),
                                issues @ [''hallucination''])
                      else Inr (tc, issues))))"

text \<open>
  generate\_test\_cases.py, lines 392 to 409: the validation loop. It returns the validated
  cases, the issues, and the id and reason of each dropped case.
\<close>

definition mark_review :: "validator_env \<Rightarrow> chunk list \<Rightarrow> dict \<Rightarrow> dict" where
  "mark_review env used_chunks validated_tc =
     (if \<not> has_verbatim_evidence env validated_tc used_chunks
      then dict_set (dict_set validated_tc ''needs_review'' (JBool True)) ''_review_reason''
             (JStr ''No verbatim evidence found in documentation'')
      else validated_tc)"

definition is_dropped :: "dict \<Rightarrow> bool" where
  "is_dropped tc = (dict_get tc ''_action'' = Some (JStr ''drop''))"

fun validation_loop :: "validator_env \<Rightarrow> chunk list \<Rightarrow> dict list \<Rightarrow> py_error + dict list \<times> string list \<times> (json \<times> json) list" where
  "validation_loop env used_chunks [] = Inr ([], [], [])"
| "validation_loop env used_chunks (tc # tcs) =
     (case validate_test_case_schema env tc used_chunks of
        Inl e \<Rightarrow> Inl e
      | Inr (validated_tc, issues) \<Rightarrow>
          (case validation_loop env used_chunks tcs of
             Inl e \<Rightarrow> Inl e
           | Inr (validated_cases, all_issues, dropped_details) \<Rightarrow>
               if is_dropped validated_tc
               then Inr (validated_cases, all_issues,
                         ((case dict_get validated_tc ''test_id'' of
                             Some v \<Rightarrow> v | None \<Rightarrow> JStr ''unknown''),
                          (case dict_get validated_tc ''_hallucination_warning'' of
                             Some v \<Rightarrow> v | None \<Rightarrow> JStr ''Critical hallucination detected''))
                         # dropped_details)
               else Inr (mark_review env used_chunks validated_tc # validated_cases,
                         issues @ all_issues, dropped_details)))"

section \<open>Response Normalizer (json\_utils.py, generate\_test\_cases.py)\<close>

subsection \<open>\<open>json.loads\<close>\<close>

text \<open>
  Python's \<open>json.loads\<close> on ASCII text, in two passes that accept what its scanner
  accepts: the text is cut into tokens separated by JSON whitespace, and the tokens are read
  by a machine with a stack of the containers still open. \<open>None\<close> is
  \<open>JSONDecodeError\<close>. The limits of the interpreter (recursion depth, digits of an
  integer) are not modelled.
\<close>

datatype token = T_LBrace | T_RBrace | T_LBracket | T_RBracket | T_Comma | T_Colon | T_Value json

definition json_space :: "char \<Rightarrow> bool" where
  "json_space c = (c \<in> set [CHR '' '', CHR 0x09, CHR 0x0A, CHR 0x0D])"

definition hex_digit :: "char \<Rightarrow> nat option" where
  "hex_digit c = map_of (zip ''0123456789abcdefABCDEF''
                            [0, 1, 2, 3, 4, 5, 6, 7, 8, 9, 10, 11, 12, 13, 14, 15, 10, 11, 12, 13, 14, 15]) c"

definition hex4 :: "char \<Rightarrow> char \<Rightarrow> char \<Rightarrow> char \<Rightarrow> nat option" where
  "hex4 a b c d =
     (case (hex_digit a, hex_digit b, hex_digit c, hex_digit d) of
        (Some x, Some y, Some z, Some w) \<Rightarrow> Some (((x * 16 + y) * 16 + z) * 16 + w)
      | _ \<Rightarrow> None)"

definition escapes :: "(char \<times> char) list" where
  "escapes = [(CHR 0x22, CHR 0x22), (CHR 0x5C, CHR 0x5C), (CHR ''/'', CHR ''/''),
              (CHR ''b'', CHR 0x08), (CHR ''f'', CHR 0x0C), (CHR ''n'', CHR 0x0A),
              (CHR ''r'', CHR 0x0D), (CHR ''t'', CHR 0x09)]"

text \<open>
  The body of a string after its opening quote, in strict mode: up to the closing quote,
  with the escapes decoded; a control character, an unknown escape or the end of the text
  is an error. The result is the string and the text after the closing quote.
\<close>

fun scan_string :: "string \<Rightarrow> (string \<times> string) option" where
  "scan_string [] = None"
| "scan_string (c # cs) =
     (if c = CHR 0x22 then Some ([], cs)
      else if c = CHR 0x5C then
        (case cs of
           [] \<Rightarrow> None
         | e # rest \<Rightarrow>
             if e = CHR ''u'' then
               (case rest of
                  h1 # h2 # h3 # h4 # rest' \<Rightarrow>
                    (case hex4 h1 h2 h3 h4 of
                       None \<Rightarrow> None
                     | Some n \<Rightarrow>
                         (case scan_string rest' of
                            None \<Rightarrow> None
                          | Some (s, r) \<Rightarrow> Some (char_of n # s, r)))
                | _ \<Rightarrow> None)
             else
               (case map_of escapes e of
                  None \<Rightarrow> None
                | Some ch \<Rightarrow>
                    (case scan_string rest of
                       None \<Rightarrow> None
                     | Some (s, r) \<Rightarrow> Some (ch # s, r))))
      else if is_control c \<or> c = CHR 0x09 \<or> c = CHR 0x0A \<or> c = CHR 0x0D then None
      else (case scan_string cs of
              None \<Rightarrow> None
            | Some (s, r) \<Rightarrow> Some (c # s, r)))"

text \<open>
  A number at the head of the text, by
  \<open>(-?(?:0|[1-9][0-9]*))(\.[0-9]+)?([eE][-+]?[0-9]+)?\<close>: an integer when it has neither
  fraction nor exponent, else a float.
\<close>

definition scan_fraction :: "string \<Rightarrow> string \<times> string" where
  "scan_fraction s =
     (case s of
        p # d # rest \<Rightarrow>
          if p = CHR ''.'' \<and> is_digit d
          then (p # d # takeWhile is_digit rest, dropWhile is_digit rest)
          else ([], s)
      | _ \<Rightarrow> ([], s))"

definition scan_exponent :: "string \<Rightarrow> string \<times> string" where
  "scan_exponent s =
     (case s of
        e # rest \<Rightarrow>
          if e = CHR ''e'' \<or> e = CHR ''E'' then
            (let sgn = (case rest of
                          g # _ \<Rightarrow> if g = CHR ''+'' \<or> g = CHR ''-'' then [g] else []
                        | [] \<Rightarrow> []);
                 after_sign = drop (length sgn) rest
             in if takeWhile is_digit after_sign \<noteq> []
                then (e # sgn @ takeWhile is_digit after_sign, dropWhile is_digit after_sign)
                else ([], s))
          else ([], s)
      | [] \<Rightarrow> ([], s))"

definition scan_number :: "string \<Rightarrow> (json \<times> string) option" where
  "scan_number s =
     (let sgn = (case s of c # _ \<Rightarrow> if c = CHR ''-'' then [c] else [] | [] \<Rightarrow> []);
          body = drop (length sgn) s;
          int_digits = (case body of
                          d # _ \<Rightarrow> if d = CHR ''0'' then [d] else takeWhile is_digit body
                        | [] \<Rightarrow> [])
      in if int_digits = [] then None
         else (let after_int = drop (length int_digits) body;
                   (frac, after_frac) = scan_fraction after_int;
                   (ex, rest) = scan_exponent after_frac
               in if frac = [] \<and> ex = []
                  then Some (JInt (if sgn = [] then int (dec_value int_digits)
                                   else - int (dec_value int_digits)), rest)
                  else Some (JFloat (sgn @ int_digits @ frac @ ex), rest)))"

text \<open>
  The value that starts at the head of the text and is not a container, in the order of
  \<open>scan_once\<close>: string, \<open>null\<close>, \<open>true\<close>, \<open>false\<close>, number, \<open>NaN\<close>,
  \<open>Infinity\<close>, \<open>-Infinity\<close>.
\<close>

definition scan_scalar :: "string \<Rightarrow> (json \<times> string) option" where
  "scan_scalar s =
     (case s of
        [] \<Rightarrow> None
      | c # cs \<Rightarrow>
          if c = CHR 0x22 then
            (case scan_string cs of None \<Rightarrow> None | Some (str, rest) \<Rightarrow> Some (JStr str, rest))
          else if prefix ''null'' s then Some (JNull, drop 4 s)
          else if prefix ''true'' s then Some (JBool True, drop 4 s)
          else if prefix ''false'' s then Some (JBool False, drop 5 s)
          else (case scan_number s of
                  Some r \<Rightarrow> Some r
                | None \<Rightarrow>
                    if prefix ''NaN'' s then Some (JFloat ''NaN'', drop 3 s)
                    else if prefix ''Infinity'' s then Some (JFloat ''Infinity'', drop 8 s)
                    else if prefix ''-Infinity'' s then Some (JFloat ''-Infinity'', drop 9 s)
                    else None))"

text \<open>
  The tokens of a text. A scalar takes at least one character; the test on the lengths
  says so to the termination proof and is always true.
\<close>

function tokenize :: "string \<Rightarrow> token list option" where
  "tokenize [] = Some []"
| "tokenize (c # cs) =
     (if json_space c then tokenize cs
      else (case map_of [(CHR ''{'', T_LBrace), (CHR ''}'', T_RBrace), (CHR ''['', T_LBracket),
                         (CHR '']'', T_RBracket), (CHR '','', T_Comma), (CHR '':'', T_Colon)] c of
              Some t \<Rightarrow> map_option (Cons t) (tokenize cs)
            | None \<Rightarrow>
                (case scan_scalar (c # cs) of
                   None \<Rightarrow> None
                 | Some (v, rest) \<Rightarrow>
                     if length rest < length (c # cs)
                     then map_option (Cons (T_Value v)) (tokenize rest)
                     else None)))"
  by pat_completeness auto
termination
  by (relation "measure length") auto

text \<open>
  The machine: a stack of open containers (an array with its items so far, an object with
  its pairs so far and the key that waits for its value) and what may come next.
\<close>

datatype frame = In_Array "json list" | In_Object dict "string option"

datatype expect =
    Expect_Value
  | Expect_Value_Or_End
  | Expect_Key_Or_End
  | Expect_Key
  | Expect_Colon
  | Expect_Comma_Or_End
  | Finished json

text \<open>A value is complete: it goes to the container on top of the stack.\<close>

definition push_value :: "frame list \<Rightarrow> json \<Rightarrow> (frame list \<times> expect) option" where
  "push_value stack v =
     (case stack of
        [] \<Rightarrow> Some ([], Finished v)
      | In_Array items # below \<Rightarrow> Some (In_Array (items @ [v]) # below, Expect_Comma_Or_End)
      | In_Object d (Some k) # below \<Rightarrow>
          Some (In_Object (dict_set d k v) None # below, Expect_Comma_Or_End)
      | In_Object d None # below \<Rightarrow> None)"

definition close_array :: "frame list \<Rightarrow> (frame list \<times> expect) option" where
  "close_array stack =
     (case stack of In_Array items # below \<Rightarrow> push_value below (JArr items) | _ \<Rightarrow> None)"

definition close_object :: "frame list \<Rightarrow> (frame list \<times> expect) option" where
  "close_object stack =
     (case stack of In_Object d None # below \<Rightarrow> push_value below (JObj d) | _ \<Rightarrow> None)"

definition open_value :: "frame list \<Rightarrow> token \<Rightarrow> (frame list \<times> expect) option" where
  "open_value stack t =
     (case t of
        T_Value v \<Rightarrow> push_value stack v
      | T_LBracket \<Rightarrow> Some (In_Array [] # stack, Expect_Value_Or_End)
      | T_LBrace \<Rightarrow> Some (In_Object [] None # stack, Expect_Key_Or_End)
      | _ \<Rightarrow> None)"

definition take_key :: "frame list \<Rightarrow> token \<Rightarrow> (frame list \<times> expect) option" where
  "take_key stack t =
     (case (t, stack) of
        (T_Value (JStr k), In_Object d None # below) \<Rightarrow> Some (In_Object d (Some k) # below, Expect_Colon)
      | _ \<Rightarrow> None)"

definition parse_step :: "frame list \<times> expect \<Rightarrow> token \<Rightarrow> (frame list \<times> expect) option" where
  "parse_step st t =
     (case snd st of
        Expect_Value \<Rightarrow> open_value (fst st) t
      | Expect_Value_Or_End \<Rightarrow> (if t = T_RBracket then close_array (fst st) else open_value (fst st) t)
      | Expect_Key_Or_End \<Rightarrow> (if t = T_RBrace then close_object (fst st) else take_key (fst st) t)
      | Expect_Key \<Rightarrow> take_key (fst st) t
      | Expect_Colon \<Rightarrow> (if t = T_Colon then Some (fst st, Expect_Value) else None)
      | Expect_Comma_Or_End \<Rightarrow>
          (case (t, fst st) of
             (T_Comma, In_Array items # below) \<Rightarrow> Some (fst st, Expect_Value)
           | (T_Comma, In_Object d None # below) \<Rightarrow> Some (fst st, Expect_Key)
           | (T_RBracket, In_Array items # below) \<Rightarrow> close_array (fst st)
           | (T_RBrace, In_Object d None # below) \<Rightarrow> close_object (fst st)
           | _ \<Rightarrow> None)
      | Finished v \<Rightarrow> None)"

fun parse_tokens :: "frame list \<times> expect \<Rightarrow> token list \<Rightarrow> json option" where
  "parse_tokens st [] = (case st of ([], Finished v) \<Rightarrow> Some v | _ \<Rightarrow> None)"
| "parse_tokens st (t # ts) =
     (case parse_step st t of None \<Rightarrow> None | Some st' \<Rightarrow> parse_tokens st' ts)"

definition json_loads :: "string \<Rightarrow> json option" where
  "json_loads s =
     (case tokenize s of None \<Rightarrow> None | Some ts \<Rightarrow> parse_tokens ([], Expect_Value) ts)"

subsection \<open>json\_utils.py\<close>

text \<open>
  \<open>re.sub(r',\s*([}\]])', r'\1', text)\<close>: a comma, the whitespace after it and a closing
  brace or bracket become the brace or bracket; the scan goes on after it.
\<close>

function remove_trailing_commas :: "string \<Rightarrow> string" where
  "remove_trailing_commas [] = []"
| "remove_trailing_commas (c # cs) =
     (if c = CHR '','' \<and> prefix ''}'' (dropWhile is_space cs)
      then CHR ''}'' # remove_trailing_commas (tl (dropWhile is_space cs))
      else if c = CHR '','' \<and> prefix '']'' (dropWhile is_space cs)
      then CHR '']'' # remove_trailing_commas (tl (dropWhile is_space cs))
      else c # remove_trailing_commas cs)"
  by pat_completeness auto
termination
proof (relation "measure length", goal_cases)
  case 1
  show ?case by simp
next
  case (2 c cs)
  have "length (tl (dropWhile is_space cs)) \<le> length (dropWhile is_space cs)" by simp
  also have "\<dots> \<le> length cs" by (rule length_dropWhile_le)
  finally show ?case by simp
next
  case (3 c cs)
  have "length (tl (dropWhile is_space cs)) \<le> length (dropWhile is_space cs)" by simp
  also have "\<dots> \<le> length cs" by (rule length_dropWhile_le)
  finally show ?case by simp
next
  case (4 c cs)
  show ?case by simp
qed

text \<open>
  \<open>re.sub(r'}\s*{', '},{', text)\<close>: a closing brace, the whitespace after it and an
  opening brace become \<open>},{\<close>.
\<close>

function separate_objects :: "string \<Rightarrow> string" where
  "separate_objects [] = []"
| "separate_objects (c # cs) =
     (if c = CHR ''}'' \<and> prefix ''{'' (dropWhile is_space cs)
      then ''},{'' @ separate_objects (tl (dropWhile is_space cs))
      else c # separate_objects cs)"
  by pat_completeness auto
termination
proof (relation "measure length", goal_cases)
  case 1
  show ?case by simp
next
  case (2 c cs)
  have "length (tl (dropWhile is_space cs)) \<le> length (dropWhile is_space cs)" by simp
  also have "\<dots> \<le> length cs" by (rule length_dropWhile_le)
  finally show ?case by simp
next
  case (3 c cs)
  show ?case by simp
qed

definition close_open :: "char \<Rightarrow> char \<Rightarrow> string \<Rightarrow> string" where
  "close_open opening closing t =
     t @ replicate (count_list t opening - count_list t closing) closing"

definition starts_with :: "string \<Rightarrow> string \<Rightarrow> bool" where
  "starts_with s p = prefix p s"

definition ends_with :: "string \<Rightarrow> string \<Rightarrow> bool" where
  "ends_with s p = suffix p s"

definition repair_json :: "string \<Rightarrow> string" where
  "repair_json t =
     (let t = remove_trailing_commas t;
          t = separate_objects t;
          t = close_open (CHR ''{'') (CHR ''}'') t;
          t = close_open (CHR ''['') (CHR '']'') t;
          cleaned = strip t
      in if starts_with cleaned ''{'' \<and> ends_with cleaned ''}'' \<and> \<not> starts_with cleaned ''[''
         then ''['' @ cleaned @ '']''
         else cleaned)"

text \<open>\<open>text.replace(stop_token, '')\<close>.\<close>

function remove_all :: "string \<Rightarrow> string \<Rightarrow> string" where
  "remove_all old [] = []"
| "remove_all old (c # cs) =
     (if old \<noteq> [] \<and> prefix old (c # cs) then remove_all old (drop (length old) (c # cs))
      else c # remove_all old cs)"
  by pat_completeness auto
termination
  by (relation "measure (\<lambda>(old, s). length s)") auto

text \<open>
  The part of the text from the first \<open>opening\<close> to the last \<open>closing\<close> after it,
  if there is one. It is the match of \<open>re.search(r'\[[\s\S]*\]', text)\<close> (the star is
  greedy), and it is \<open>raw_text[start:end+1]\<close> for \<open>start = find('[')\<close>,
  \<open>end = rfind(']')\<close> when both exist and \<open>end > start\<close>.
\<close>

definition span_between :: "char \<Rightarrow> char \<Rightarrow> string \<Rightarrow> string option" where
  "span_between opening closing s =
     (let from_open = dropWhile (\<lambda>c. c \<noteq> opening) s
      in if from_open \<noteq> [] \<and> closing \<in> set (tl from_open)
         then Some (rev (dropWhile (\<lambda>c. c \<noteq> closing) (rev from_open)))
         else None)"

definition extract_json_from_response :: "string \<Rightarrow> string" where
  "extract_json_from_response text0 =
     (let t = remove_all ''</END_JSON>'' text0
      in case span_between (CHR ''['') (CHR '']'') t of
           Some m \<Rightarrow> m
         | None \<Rightarrow> (case span_between (CHR ''{'') (CHR ''}'') t of Some m \<Rightarrow> m | None \<Rightarrow> t))"

definition aggressive_json_extraction :: "string \<Rightarrow> string" where
  "aggressive_json_extraction raw_text =
     (case span_between (CHR ''['') (CHR '']'') raw_text of
        Some candidate \<Rightarrow> repair_json candidate
      | None \<Rightarrow>
          (case span_between (CHR ''{'') (CHR ''}'') raw_text of
             Some candidate \<Rightarrow> repair_json candidate
           | None \<Rightarrow> ''[]''))"

text \<open>
  The matches of \<open>re.finditer(r'\{[\s\S]*?\}', raw_text)\<close> (the star is lazy): from an
  opening brace to the first closing brace after it, then on after that brace.
\<close>

function brace_spans :: "string \<Rightarrow> string list" where
  "brace_spans s =
     (case dropWhile (\<lambda>c. c \<noteq> CHR ''{'') s of
        [] \<Rightarrow> []
      | b # body \<Rightarrow>
          if CHR ''}'' \<in> set body
          then (b # takeWhile (\<lambda>c. c \<noteq> CHR ''}'') body @ ''}'')
                 # brace_spans (tl (dropWhile (\<lambda>c. c \<noteq> CHR ''}'') body))
          else [])"
  by pat_completeness auto
termination
proof (relation "measure length", goal_cases)
  case 1
  show ?case by simp
next
  case (2 s b body)
  have "length (tl (dropWhile (\<lambda>c. c \<noteq> CHR ''}'') body)) \<le> length body"
    by (simp add: length_dropWhile_le le_diff_conv le_SucI)
  also have "\<dots> < length (dropWhile (\<lambda>c. c \<noteq> CHR ''{'') s)"
    using 2 by simp
  also have "\<dots> \<le> length s" by (rule length_dropWhile_le)
  finally show ?case by simp
qed

fun dict_of :: "json \<Rightarrow> dict option" where
  "dict_of (JObj d) = Some d"
| "dict_of _ = None"

definition dicts_in :: "json list \<Rightarrow> dict list" where
  "dicts_in xs = List.map_filter dict_of xs"

fun secondary_loop :: "dict list \<Rightarrow> string list \<Rightarrow> dict list" where
  "secondary_loop objects [] = objects"
| "secondary_loop objects (candidate # candidates) =
     (case json_loads (repair_json candidate) of
        None \<Rightarrow> secondary_loop objects candidates
      | Some parsed \<Rightarrow>
          (let objects' = objects @ (case parsed of
                                       JObj d \<Rightarrow> [d]
                                     | JArr xs \<Rightarrow> dicts_in xs
                                     | _ \<Rightarrow> [])
           in if length objects' \<ge> 10 then objects'
              else secondary_loop objects' candidates))"

definition secondary_json_format_pass :: "string \<Rightarrow> dict list" where
  "secondary_json_format_pass raw_text = secondary_loop [] (brace_spans raw_text)"

subsection \<open>The semantic matcher's other verdicts (semantic\_matcher.py)\<close>

text \<open>
  \<open>match_button_action\<close> and \<open>match_select_action\<close> return the verdict and the
  greatest similarity, \<open>(False, 0.0)\<close> when an embedding raises; the thresholds are
  \<open>THRESHOLDS["button_action"]\<close> and \<open>THRESHOLDS["select_action"]\<close>.
\<close>

definition button_intents :: "string list" where
  "button_intents =
     [''click button press tap'', ''submit form send data'', ''proceed continue next forward'',
      ''confirm okay accept approve'', ''add insert create new'', ''trigger activate execute run'',
      ''push hit apply go'', ''launch start begin initiate'', ''process complete finish done'',
      ''purchase buy checkout pay'']"

definition match_button_action :: "'a matcher_env_scheme \<Rightarrow> string \<Rightarrow> bool \<times> real" where
  "match_button_action env step_text =
     (case max_similarity env (lower step_text) button_intents of
        None \<Rightarrow> (False, 0)
      | Some max_sim \<Rightarrow> (max_sim > 35 / 100, max_sim))"

definition select_intents :: "string list" where
  "select_intents =
     [''select choose pick option'', ''dropdown menu list picker'', ''opt for go with use'',
      ''set to change to switch to'', ''filter by sort by group by'']"

definition match_select_action :: "'a matcher_env_scheme \<Rightarrow> string \<Rightarrow> bool \<times> real" where
  "match_select_action env step_text =
     (case max_similarity env (lower step_text) select_intents of
        None \<Rightarrow> (False, 0)
      | Some max_sim \<Rightarrow> (max_sim > 25 / 100, max_sim))"

text \<open>
  \<open>SemanticMatcher.classify_document_type\<close> returns a pair: the type and its score.
\<close>

definition doc_type_intents :: "(string \<times> string) list" where
  "doc_type_intents =
     [(''specification'', ''product requirements features functionality specification guideline standard blueprint architecture schema definition''),
      (''validation_rules'', ''validation rules constraints checks policy verify sanitize validate compliance regulation requirement''),
      (''api_documentation'', ''api endpoint rest graphql webhook openapi swagger microservice service integration protocol''),
      (''ui_guidelines'', ''ui ux design interface mockup wireframe prototype component layout theme style visual brand'')]"

definition matcher_classify_document_type :: "'a matcher_env_scheme \<Rightarrow> string \<Rightarrow> string \<times> real" where
  "matcher_classify_document_type env source =
     (let t = lower (source @ '' '')
      in case those (map (\<lambda>(ty, intent). similarity env t intent) doc_type_intents) of
           None \<Rightarrow> (''general'', 3 / 10)
         | Some sims \<Rightarrow>
             (let (best_type, best_score) =
                    foldl (\<lambda>(bt, bs) (ty, sim). if sim > bs then (ty, sim) else (bt, bs))
                      (''general'', 0) (zip (map fst doc_type_intents) sims)
              in if best_score < 38 / 100 then (''general'', 3 / 10) else (best_type, best_score)))"

subsection \<open>The cascade (generate\_test\_cases.py, lines 179 to 376)\<close>

text \<open>
  \<open>len(v)\<close> and \<open>for tc in v\<close> on the value under \<open>"test_cases"\<close>: the items of a
  list, the characters of a string, the keys of a dict; a number, a boolean or \<open>null\<close>
  has no length and raises \<open>TypeError\<close>.
\<close>

definition iter_items :: "json \<Rightarrow> py_error + json list" where
  "iter_items v =
     (case v of
        JArr xs \<Rightarrow> Inr xs
      | JStr s \<Rightarrow> Inr (map (\<lambda>c. JStr [c]) s)
      | JObj d \<Rightarrow> Inr (map (\<lambda>k. JStr k) (remdups (map fst d)))
      | _ \<Rightarrow> Inl TypeError)"

text \<open>Lines 209 to 238: the list of items the response holds.\<close>

definition response_items :: "json \<Rightarrow> py_error + json list" where
  "response_items response_json =
     (case response_json of
        JArr xs \<Rightarrow> Inr xs
      | JObj d \<Rightarrow>
          (case dict_get d ''test_cases'' of
             Some v \<Rightarrow> iter_items v
           | None \<Rightarrow> Inr (if d \<noteq> [] then [JObj d] else []))
      | JStr s \<Rightarrow>
          (let stripped = strip s
           in if (starts_with stripped ''['' \<and> ends_with stripped '']'')
                 \<or> (starts_with stripped ''{'' \<and> ends_with stripped ''}'')
              then (case json_loads stripped of
                      Some (JArr ys) \<Rightarrow> Inr ys
                    | Some (JObj d) \<Rightarrow> Inr [JObj d]
                    | _ \<Rightarrow> Inr [])
              else Inr [])
      | _ \<Rightarrow> Inr [])"

text \<open>
  Lines 243 to 264: a dict is kept; a string that looks like an object is repaired and
  parsed, and kept if the result is a dict; anything else is skipped.
\<close>

definition normalize_item :: "json \<Rightarrow> dict option" where
  "normalize_item tc =
     (case tc of
        JObj d \<Rightarrow> Some d
      | JStr s \<Rightarrow>
          (let candidate = strip s
           in if starts_with candidate ''{'' \<and> ends_with candidate ''}''
              then (case json_loads (repair_json candidate) of
                      Some (JObj d) \<Rightarrow> Some d
                    | _ \<Rightarrow> None)
              else None)
      | _ \<Rightarrow> None)"

text \<open>
  Lines 267 to 271: \<open>test_steps\<close> given as one string is split at
  \<open>[\n;>|]+\<close>.
\<close>

definition split_steps_wide :: "string \<Rightarrow> string list" where
  "split_steps_wide raw_steps =
     (let steps = filter (\<lambda>s. s \<noteq> [])
                    (map strip (runs (\<lambda>c. c \<notin> set [CHR 0x0A, CHR '';'', CHR ''>'', CHR ''|'']) raw_steps))
      in if steps \<noteq> [] then take 6 steps else [''Step 1'', ''Step 2''])"

definition split_string_steps :: "dict \<Rightarrow> dict" where
  "split_string_steps tc =
     (case dict_get tc ''test_steps'' of
        Some (JStr raw_steps) \<Rightarrow> dict_set tc ''test_steps'' (JArr (map JStr (split_steps_wide raw_steps)))
      | _ \<Rightarrow> tc)"

text \<open>Lines 275 to 287: the second try of the aggressive extraction.\<close>

definition aggressive_fallback :: "string \<Rightarrow> dict list" where
  "aggressive_fallback raw_response =
     (case json_loads (aggressive_json_extraction raw_response) of
        Some (JArr xs) \<Rightarrow> dicts_in xs
      | Some (JObj d) \<Rightarrow> [d]
      | _ \<Rightarrow> [])"

text \<open>
  Lines 318 to 338: the lines of the raw response that read as a verification or an action
  step. \<open>button_sim, _ = match_button_action(ln)\<close> binds the verdict, a boolean, so
  \<open>max(button_sim, select_sim) > 0.25\<close> holds when one of the two verdicts is true.
\<close>

definition is_line_break :: "char \<Rightarrow> bool" where
  "is_line_break c =
     (c \<in> set [CHR 0x0A, CHR 0x0D, CHR 0x0B, CHR 0x0C, CHR 0x1C, CHR 0x1D, CHR 0x1E])"

definition raw_lines :: "string \<Rightarrow> string list" where
  "raw_lines raw = filter (\<lambda>line. line \<noteq> []) (map strip (runs (\<lambda>c. \<not> is_line_break c) raw))"

definition drop_trailing_dots :: "string \<Rightarrow> string" where
  "drop_trailing_dots line = (if ends_with line ''...'' then take (length line - 3) line else line)"

definition drop_user_prefix :: "string \<Rightarrow> string" where
  "drop_user_prefix line =
     (if lower (take 4 line) = ''user'' \<and> takeWhile is_space (drop 4 line) \<noteq> []
      then dropWhile is_space (drop 4 line)
      else line)"

definition semantic_step_lines :: "'a matcher_env_scheme \<Rightarrow> string \<Rightarrow> string list" where
  "semantic_step_lines env raw_response =
     (let kept = filter (\<lambda>line. fst (is_verification_step env line)
                              \<or> fst (match_button_action env line)
                              \<or> fst (match_select_action env line)) (raw_lines raw_response);
          step_lines = take 8 (map (\<lambda>line. drop_user_prefix (drop_trailing_dots line)) kept)
      in if step_lines = []
         then [''Navigate to the application page'', ''Complete the required form fields'']
         else step_lines)"

text \<open>
  Lines 340 to 353: the feature name. With a chunk at hand,
  \<open>doc_type = semantic_matcher.classify_document_type(first_doc)\<close> binds the pair the
  matcher returns, and \<open>doc_type.lower()\<close> is called on that pair: a tuple has no
  \<open>lower\<close>, so the call raises \<open>AttributeError\<close>.
\<close>

definition tuple_lower :: "string \<times> real \<Rightarrow> py_error + string" where
  "tuple_lower doc_type_pair = Inl AttributeError"

definition upper_char :: "char \<Rightarrow> char" where
  "upper_char c =
     (case map_of (zip ''abcdefghijklmnopqrstuvwxyz'' ''ABCDEFGHIJKLMNOPQRSTUVWXYZ'') c of
        Some u \<Rightarrow> u
      | None \<Rightarrow> c)"

text \<open>\<open>s.title()\<close>: a letter after a letter is lowercased, any other letter is uppercased.\<close>

fun title_from :: "bool \<Rightarrow> string \<Rightarrow> string" where
  "title_from after_letter [] = []"
| "title_from after_letter (c # cs) =
     (if after_letter then lower_char c else upper_char c)
       # title_from (is_upper c \<or> is_lower c) cs"

definition doc_feature_name :: "string \<Rightarrow> string" where
  "doc_feature_name first_doc =
     (let last_part = rev (takeWhile (\<lambda>c. c \<noteq> CHR ''/'') (rev first_doc));
          doc_name = remove_all ''.json'' (remove_all ''.html'' (remove_all ''.txt''
                       (remove_all ''.md'' last_part)))
      in title_from False (map (\<lambda>c. if c = CHR ''_'' then CHR '' '' else c) doc_name)
           @ '' Validation'')"

definition synthesized_feature_name :: "'a matcher_env_scheme \<Rightarrow> chunk list \<Rightarrow> py_error + string" where
  "synthesized_feature_name env used_chunks =
     (case used_chunks of
        [] \<Rightarrow> Inr ''Form Validation''
      | c # _ \<Rightarrow>
          (let first_doc = (case chunk_source c of Some s \<Rightarrow> s | None \<Rightarrow> []);
               doc_type_pair = matcher_classify_document_type env first_doc
           in case tuple_lower doc_type_pair of
                Inl e \<Rightarrow> Inl e
              | Inr lowered \<Rightarrow>
                  Inr (if contains lowered ''api'' then ''API Integration Testing''
                       else if contains lowered ''ui'' \<or> contains lowered ''html''
                       then ''UI Validation''
                       else if contains lowered ''spec'' \<or> contains lowered ''product''
                       then ''Product Feature Validation''
                       else doc_feature_name first_doc)))"

definition synthesize :: "'a matcher_env_scheme \<Rightarrow> string \<Rightarrow> string \<Rightarrow> chunk list \<Rightarrow> py_error + dict" where
  "synthesize env raw_response prompt used_chunks =
     (let step_lines = semantic_step_lines env raw_response
      in case synthesized_feature_name env used_chunks of
           Inl e \<Rightarrow> Inl e
         | Inr feature_name \<Rightarrow>
             Inr [(''test_id'', JStr ''TC-001''),
                  (''feature'', JStr feature_name),
                  (''test_scenario'', JStr (take 160 (strip prompt))),
                  (''test_steps'', JArr (map JStr step_lines)),
                  (''expected_result'',
                   JStr ''Form submission completes successfully with expected behavior''),
                  (''test_type'', JStr ''positive''),
                  (''priority'', JStr ''high''),
                  (''grounded_in'',
                   JStr (case used_chunks of
                           [] \<Rightarrow> ''unknown''
                         | c # _ \<Rightarrow> (case chunk_source c of Some s \<Rightarrow> s | None \<Rightarrow> ''unknown''))),
                  (''_fallback_synthesized'', JBool True),
                  (''_aiml_semantic_extraction'', JBool True),
                  (''_review_reason'',
                   JStr ''Synthesized using AI/ML semantic extraction due to unparseable LLM output''),
                  (''needs_review'', JBool True)])"

text \<open>
  What the cascade hands on: the early return with no test cases when no parse succeeds
  (line 195), the early return with no test cases when nothing was extracted and the
  semantic fallback is not available (line 299), or the test cases that go on to validation.
  An error is an exception, which \<open>generate_test_cases\<close> catches at line 579 and raises
  again to its caller.
\<close>

datatype normalized = Unparseable | Fallback_Unavailable | Test_Cases "dict list"

definition normalize_response :: "'a matcher_env_scheme \<Rightarrow> bool \<Rightarrow> string \<Rightarrow> string \<Rightarrow> chunk list \<Rightarrow> py_error + normalized" where
  "normalize_response env aiml_available raw_response prompt used_chunks =
     (let response_text = repair_json (extract_json_from_response raw_response);
          parsed = (case json_loads response_text of
                      Some j \<Rightarrow> Some j
                    | None \<Rightarrow> json_loads (aggressive_json_extraction raw_response))
      in case parsed of
           None \<Rightarrow> Inr Unparseable
         | Some response_json \<Rightarrow>
             (case response_items response_json of
                Inl e \<Rightarrow> Inl e
              | Inr items \<Rightarrow>
                  (let test_cases = map split_string_steps (List.map_filter normalize_item items);
                       test_cases = (if test_cases = [] then aggressive_fallback raw_response
                                     else test_cases);
                       test_cases = (if test_cases = [] then secondary_json_format_pass raw_response
                                     else test_cases)
                   in if test_cases \<noteq> [] then Inr (Test_Cases test_cases)
                      else if \<not> aiml_available then Inr Fallback_Unavailable
                      else (case synthesize env raw_response prompt used_chunks of
                              Inl e \<Rightarrow> Inl e
                            | Inr synthesized \<Rightarrow> Inr (Test_Cases [synthesized])))))"

text \<open>
  Texts on which the two substitutions of \<open>repair_json\<close> find nothing: no comma is
  followed, after optional whitespace, by a closing brace or bracket, and no closing brace
  is followed, after optional whitespace, by an opening brace.
\<close>

fun no_trailing_comma :: "string \<Rightarrow> bool" where
  "no_trailing_comma [] = True"
| "no_trailing_comma (c # cs) =
     (\<not> (c = CHR '','' \<and> (prefix ''}'' (dropWhile is_space cs) \<or> prefix '']'' (dropWhile is_space cs)))
      \<and> no_trailing_comma cs)"

fun no_adjacent_objects :: "string \<Rightarrow> bool" where
  "no_adjacent_objects [] = True"
| "no_adjacent_objects (c # cs) =
     (\<not> (c = CHR ''}'' \<and> prefix ''{'' (dropWhile is_space cs)) \<and> no_adjacent_objects cs)"

section \<open>Properties of the Context Builder\<close>

lemma select_chunks_sum:
  "0 \<le> tot \<Longrightarrow> tot \<le> max_tokens \<Longrightarrow>
   tot + sum_list (map (\<lambda>c. estimate_tokens (get_text c)) (select_chunks tot max_tokens cs))
     \<le> max_tokens"
proof (induction cs arbitrary: tot)
  case Nil
  then show ?case by simp
next
  case (Cons c cs)
  have pos: "0 \<le> estimate_tokens (get_text c)"
    by (simp add: estimate_tokens_def)
  show ?case
  proof (cases "tot + estimate_tokens (get_text c) > max_tokens")
    case True
    with Cons.prems show ?thesis by simp
  next
    case False
    with Cons.IH [of "tot + estimate_tokens (get_text c)"] Cons.prems pos
    show ?thesis by (simp add: Let_def add.assoc)
  qed
qed

lemma select_chunks_prefix: "prefix (select_chunks tot max_tokens cs) cs"
  by (induction cs arbitrary: tot) (auto simp: Let_def)

text \<open>
  C4, as stated: the estimated token count of the returned context string never exceeds
  \<open>max_tokens\<close>. It fails: the budget is charged with the chunk texts only, while the
  context string also carries a \<open>[Source: ...]\<close> header per chunk. One chunk with the
  four-letter text \<open>abcd\<close> from \<open>a.md\<close> fits a budget of 1 token, and the context built
  from it is 20 characters long, estimated at 5 tokens.
\<close>

theorem truncate_context_smart_budget_counterexample:
  "\<not> estimate_tokens (fst (truncate_context_smart
        [\<lparr>chunk_id = None, chunk_text = Some ''abcd'', chunk_source = Some ''a.md'',
          distance = None, doc_type = None, hybrid_score = None, bm25_score = None\<rparr>] 1)) \<le> 1"
  by (simp add: truncate_context_smart_def estimate_tokens_def get_text_def context_part_def
      sanitize_text_def strip_def is_space_def is_control_def Let_def)

text \<open>
  C4, amended: for a budget \<open>max_tokens \<ge> 0\<close>, the chunks used are a prefix of the ranked
  list, and the sum of the estimated token counts of their texts (\<open>len(text)//4\<close>, minimum 1,
  per chunk) does not exceed \<open>max_tokens\<close>.
\<close>

theorem truncate_context_smart_budget:
  assumes "0 \<le> max_tokens"
    and "truncate_context_smart chunks max_tokens = (context, was_truncated, used)"
  shows "prefix used chunks \<and>
         sum_list (map (\<lambda>c. estimate_tokens (get_text c)) used) \<le> max_tokens"
proof -
  from assms(2) have used: "used = select_chunks 0 max_tokens chunks"
    by (simp add: truncate_context_smart_def Let_def)
  from select_chunks_sum [of 0 max_tokens chunks] assms(1)
  have "sum_list (map (\<lambda>c. estimate_tokens (get_text c)) used) \<le> max_tokens"
    by (simp add: used)
  with select_chunks_prefix [of 0 max_tokens chunks] show ?thesis
    by (simp add: used)
qed

theorem truncate_context_smart_budget_witness:
  "(0::int) \<le> 2 \<and>
   snd (snd (truncate_context_smart
     [\<lparr>chunk_id = None, chunk_text = Some ''abcd'', chunk_source = Some ''a.md'',
       distance = None, doc_type = None, hybrid_score = None, bm25_score = None\<rparr>,
      \<lparr>chunk_id = None, chunk_text = Some ''efghijkl'', chunk_source = Some ''b.md'',
       distance = None, doc_type = None, hybrid_score = None, bm25_score = None\<rparr>] 2)) =
     [\<lparr>chunk_id = None, chunk_text = Some ''abcd'', chunk_source = Some ''a.md'',
       distance = None, doc_type = None, hybrid_score = None, bm25_score = None\<rparr>] \<and>
   sum_list (map (\<lambda>c. estimate_tokens (get_text c))
     [\<lparr>chunk_id = None, chunk_text = Some ''abcd'', chunk_source = Some ''a.md'',
       distance = None, doc_type = None, hybrid_score = None, bm25_score = None\<rparr>]) \<le> 2"
proof -
  let ?cs = "[\<lparr>chunk_id = None, chunk_text = Some ''abcd'', chunk_source = Some ''a.md'',
       distance = None, doc_type = None, hybrid_score = None, bm25_score = None\<rparr>,
      \<lparr>chunk_id = None, chunk_text = Some ''efghijkl'', chunk_source = Some ''b.md'',
       distance = None, doc_type = None, hybrid_score = None, bm25_score = None\<rparr>]"
  let ?r = "truncate_context_smart ?cs 2"
  have e: "?r = (fst ?r, fst (snd ?r), snd (snd ?r))" by simp
  have u: "snd (snd ?r) =
     [\<lparr>chunk_id = None, chunk_text = Some ''abcd'', chunk_source = Some ''a.md'',
       distance = None, doc_type = None, hybrid_score = None, bm25_score = None\<rparr>]"
    by (simp add: truncate_context_smart_def estimate_tokens_def get_text_def Let_def)
  have "(0::int) \<le> 2" by simp
  from truncate_context_smart_budget [OF this e] u show ?thesis by simp
qed

section \<open>Properties of the id renumbering\<close>

declare decimal.simps [simp del]

lemma digit_val_nth: "d < 10 \<Longrightarrow> digit_val (''0123456789'' ! d) = d"
proof -
  assume "d < 10"
  then have "d \<in> {0, 1, 2, 3, 4, 5, 6, 7, 8, 9}" by auto
  then show ?thesis by (auto simp: digit_val_def upt_conv_Cons)
qed

lemma dec_value_snoc: "dec_value (s @ [c]) = 10 * dec_value s + digit_val c"
  by (simp add: dec_value_def)

lemma dec_value_decimal: "dec_value (decimal n) = n"
proof (induction n rule: decimal.induct)
  case (1 n)
  show ?case
  proof (cases "n < 10")
    case True
    then show ?thesis
      by (subst decimal.simps) (simp add: dec_value_def digit_val_nth)
  next
    case False
    with 1 show ?thesis
      by (subst decimal.simps) (simp add: dec_value_snoc digit_val_nth)
  qed
qed

lemma dec_value_zeros: "dec_value (replicate k (CHR ''0'') @ s) = dec_value s"
proof -
  have z: "digit_val (CHR ''0'') = 0"
    by (simp add: digit_val_def upt_conv_Cons)
  have "foldl (\<lambda>a c. 10 * a + digit_val c) 0 (replicate k (CHR ''0'')) = 0"
    by (induction k) (simp_all add: z)
  then show ?thesis by (simp add: dec_value_def)
qed

lemma dec_value_format_03d: "dec_value (format_03d i) = i"
  by (simp add: format_03d_def Let_def dec_value_zeros dec_value_decimal)

lemma format_03d_inj: "format_03d i = format_03d j \<Longrightarrow> i = j"
  by (metis dec_value_format_03d)

lemma renumber_length: "length (renumber i tcs) = length tcs"
  by (induction tcs arbitrary: i) simp_all

lemma renumber_nth:
  "k < length tcs \<Longrightarrow> tcs ! k = JObj d \<Longrightarrow>
   renumber i tcs ! k = JObj (dict_set d ''test_id'' (JStr (''TC-'' @ format_03d (i + k))))"
proof (induction tcs arbitrary: i k)
  case Nil
  then show ?case by simp
next
  case (Cons tc tcs)
  show ?case
  proof (cases k)
    case 0
    with Cons.prems show ?thesis by simp
  next
    case (Suc k')
    with Cons.prems Cons.IH [of k' "Suc i"] show ?thesis by simp
  qed
qed

lemma test_id_of_set: "test_id_of (JObj (dict_set d ''test_id'' v)) = Some v"
  by (simp add: test_id_of_def dict_get_def dict_set_def update_conv')

text \<open>
  C7: for every batch of test-case dicts, whatever ids they carried, the renumbered batch has
  the same length N, its k-th case (counted from 1) carries the id \<open>TC-\<close> followed by k
  zero-padded to three digits, so the ids are TC-001, TC-002, ... in order, and no id repeats.
\<close>

theorem ensure_unique_test_ids_sequence:
  assumes "\<forall>tc \<in> set tcs. \<exists>d. tc = JObj d"
  shows "length (ensure_unique_test_ids tcs) = length tcs \<and>
         (\<forall>k < length tcs. test_id_of (ensure_unique_test_ids tcs ! k)
              = Some (JStr (''TC-'' @ format_03d (Suc k)))) \<and>
         distinct (map test_id_of (ensure_unique_test_ids tcs))"
proof -
  let ?out = "ensure_unique_test_ids tcs"
  have len: "length ?out = length tcs"
    by (simp add: ensure_unique_test_ids_def renumber_length)
  have ids: "test_id_of (?out ! k) = Some (JStr (''TC-'' @ format_03d (Suc k)))"
    if "k < length tcs" for k
  proof -
    from assms that obtain d where "tcs ! k = JObj d" by (meson nth_mem)
    with that show ?thesis
      by (simp add: ensure_unique_test_ids_def renumber_nth test_id_of_set)
  qed
  have "distinct (map test_id_of ?out)"
    unfolding distinct_conv_nth
  proof (intro allI impI)
    fix a b
    assume a: "a < length (map test_id_of ?out)" and b: "b < length (map test_id_of ?out)"
      and ab: "a \<noteq> b"
    from a b len ids have "map test_id_of ?out ! a = Some (JStr (''TC-'' @ format_03d (Suc a)))"
      and "map test_id_of ?out ! b = Some (JStr (''TC-'' @ format_03d (Suc b)))"
      by simp_all
    with ab show "map test_id_of ?out ! a \<noteq> map test_id_of ?out ! b"
      by (auto dest: format_03d_inj)
  qed
  with len ids show ?thesis by blast
qed

theorem ensure_unique_test_ids_sequence_witness:
  "map test_id_of (ensure_unique_test_ids
      [JObj [(''test_id'', JStr ''TC-007''), (''feature'', JStr ''Cart'')],
       JObj [(''feature'', JStr ''Login'')],
       JObj [(''test_id'', JStr ''TC-007'')]])
     = [Some (JStr ''TC-001''), Some (JStr ''TC-002''), Some (JStr ''TC-003'')] \<and>
   distinct (map test_id_of (ensure_unique_test_ids
      [JObj [(''test_id'', JStr ''TC-007''), (''feature'', JStr ''Cart'')],
       JObj [(''feature'', JStr ''Login'')],
       JObj [(''test_id'', JStr ''TC-007'')]]))"
proof -
  let ?tcs = "[JObj [(''test_id'', JStr ''TC-007''), (''feature'', JStr ''Cart'')],
       JObj [(''feature'', JStr ''Login'')],
       JObj [(''test_id'', JStr ''TC-007'')]]"
  have h: "\<forall>tc \<in> set ?tcs. \<exists>d. tc = JObj d" by simp
  have v: "map test_id_of (ensure_unique_test_ids ?tcs)
     = [Some (JStr ''TC-001''), Some (JStr ''TC-002''), Some (JStr ''TC-003'')]"
    by code_simp
  from ensure_unique_test_ids_sequence [OF h] v show ?thesis by blast
qed


section \<open>Properties of the duplicate filter\<close>

lemma dup_loop_lower: "dup_loop i seen tcs = Inr idx \<Longrightarrow> m \<in> set idx \<Longrightarrow> i \<le> m"
proof (induction tcs arbitrary: i seen idx)
  case Nil
  then show ?case by simp
next
  case (Cons tc tcs)
  from Cons.prems(1) obtain sg where sg: "case_signature tc = Inr sg"
    by (auto split: sum.splits)
  show ?case
  proof (cases "sg \<in> set seen")
    case True
    with Cons.prems(1) sg obtain idx' where
      i': "dup_loop (Suc i) seen tcs = Inr idx'" and idx: "idx = i # idx'"
      by (auto split: sum.splits)
    from Cons.prems(2) idx have "m = i \<or> m \<in> set idx'" by simp
    with Cons.IH [OF i'] show ?thesis by auto
  next
    case False
    with Cons.prems(1) sg have "dup_loop (Suc i) (sg # seen) tcs = Inr idx" by simp
    from Cons.IH [OF this Cons.prems(2)] show ?thesis by simp
  qed
qed

lemma dup_loop_member:
  "dup_loop i seen tcs = Inr idx \<Longrightarrow>
   (i + k \<in> set idx) =
   (k < length tcs \<and>
    (case_signature (tcs ! k) \<in> Inr ` set seen \<or>
     (\<exists>j<k. case_signature (tcs ! j) = case_signature (tcs ! k))))"
proof (induction tcs arbitrary: i seen idx k)
  case Nil
  then show ?case by simp
next
  case (Cons tc tcs)
  from Cons.prems obtain sg where sg: "case_signature tc = Inr sg"
    by (auto split: sum.splits)
  show ?case
  proof (cases "sg \<in> set seen")
    case True
    with Cons.prems sg obtain idx' where
      i': "dup_loop (Suc i) seen tcs = Inr idx'" and idx: "idx = i # idx'"
      by (auto split: sum.splits)
    show ?thesis
    proof (cases k)
      case 0
      with idx sg True show ?thesis by simp
    next
      case (Suc k')
      have "(i + k \<in> set idx) = (Suc i + k' \<in> set idx')"
        using idx Suc by simp
      also have "\<dots> = (k' < length tcs \<and>
          (case_signature (tcs ! k') \<in> Inr ` set seen \<or>
           (\<exists>j<k'. case_signature (tcs ! j) = case_signature (tcs ! k'))))"
        by (rule Cons.IH [OF i'])
      also have "\<dots> = (k < length (tc # tcs) \<and>
          (case_signature ((tc # tcs) ! k) \<in> Inr ` set seen \<or>
           (\<exists>j<k. case_signature ((tc # tcs) ! j) = case_signature ((tc # tcs) ! k))))"
      proof -
        define S where "S = (Inr ` set seen :: (py_error + string list) set)"
        have "case_signature tc \<in> S" using sg True by (simp add: S_def)
        then have "(k' < length tcs \<and>
          (case_signature (tcs ! k') \<in> S \<or>
           (\<exists>j<k'. case_signature (tcs ! j) = case_signature (tcs ! k')))) =
          (k < length (tc # tcs) \<and>
          (case_signature ((tc # tcs) ! k) \<in> S \<or>
           (\<exists>j<k. case_signature ((tc # tcs) ! j) = case_signature ((tc # tcs) ! k))))"
          using Suc by (auto simp: less_Suc_eq_0_disj)
        then show ?thesis by (simp add: S_def)
      qed
      finally show ?thesis .
    qed
  next
    case False
    with Cons.prems sg have i': "dup_loop (Suc i) (sg # seen) tcs = Inr idx" by simp
    show ?thesis
    proof (cases k)
      case 0
      from dup_loop_lower [OF i', of i] have "i \<notin> set idx" by auto
      with 0 sg False show ?thesis by auto
    next
      case (Suc k')
      have "(i + k \<in> set idx) = (Suc i + k' \<in> set idx)"
        using Suc by simp
      also have "\<dots> = (k' < length tcs \<and>
          (case_signature (tcs ! k') \<in> Inr ` set (sg # seen) \<or>
           (\<exists>j<k'. case_signature (tcs ! j) = case_signature (tcs ! k'))))"
        by (rule Cons.IH [OF i'])
      also have "\<dots> = (k < length (tc # tcs) \<and>
          (case_signature ((tc # tcs) ! k) \<in> Inr ` set seen \<or>
           (\<exists>j<k. case_signature ((tc # tcs) ! j) = case_signature ((tc # tcs) ! k))))"
        using Suc sg by (auto simp: less_Suc_eq_0_disj)
      finally show ?thesis .
    qed
  qed
qed

lemma enumerate_filter_nth:
  "map snd (filter (\<lambda>(i, tc). P i) (enumerate 0 xs)) = map (\<lambda>i. xs ! i) (filter P [0..<length xs])"
proof -
  have "enumerate 0 xs = map (\<lambda>i. (i, xs ! i)) [0..<length xs]"
    by (rule nth_equalityI) (simp_all add: nth_enumerate_eq)
  then show ?thesis
    by (simp add: filter_map o_def)
qed

text \<open>
  C5, as stated: the signature is built from the 25 longest distinct words. It fails: the
  code sorts the words in ascending (alphabetical) order and keeps the first 25. The two
  cases below have 26 distinct words each, the same 25 six-letter words and one five-letter
  word (\<open>aaaaa\<close>, \<open>aaaab\<close>); their 25 longest words coincide, so the claim has the
  second removed, and the code reports no duplicate.
\<close>

theorem detect_semantic_duplicates_longest_counterexample:
  "longest_words_signature ''aaaaa wordaa wordab wordac wordad wordae wordaf wordag wordah wordai wordaj wordak wordal wordam wordan wordao wordap wordaq wordar wordas wordat wordau wordav wordaw wordax worday'' =
   longest_words_signature ''aaaab wordaa wordab wordac wordad wordae wordaf wordag wordah wordai wordaj wordak wordal wordam wordan wordao wordap wordaq wordar wordas wordat wordau wordav wordaw wordax worday'' \<and>
   detect_semantic_duplicates
     [JObj [(''test_scenario'', JStr ''aaaaa wordaa wordab wordac wordad wordae wordaf wordag wordah wordai wordaj wordak wordal wordam wordan wordao wordap wordaq wordar wordas wordat wordau wordav wordaw wordax worday''),
            (''test_steps'', JArr [])],
      JObj [(''test_scenario'', JStr ''aaaab wordaa wordab wordac wordad wordae wordaf wordag wordah wordai wordaj wordak wordal wordam wordan wordao wordap wordaq wordar wordas wordat wordau wordav wordaw wordax worday''),
            (''test_steps'', JArr [])]] = Inr []"
  by code_simp

text \<open>
  C5, amended: the signature of a case is the first 25, in ascending order, of the distinct
  lowercased words longer than 4 characters of its scenario plus steps. Whenever the filter
  returns, a case is a duplicate exactly when an earlier case has the same signature, the
  cases kept are those with no earlier case of the same signature, in their order, and of two
  cases with the same scenario-plus-steps text the later one is a duplicate.
\<close>

theorem detect_semantic_duplicates_first_kept:
  assumes "detect_semantic_duplicates tcs = Inr idx"
  shows "(\<forall>i. i \<in> set idx \<longleftrightarrow>
            i < length tcs \<and> (\<exists>j<i. case_signature (tcs ! j) = case_signature (tcs ! i))) \<and>
         remove_semantic_duplicates tcs =
           Inr (map (\<lambda>i. tcs ! i)
                  (filter (\<lambda>i. \<forall>j<i. case_signature (tcs ! j) \<noteq> case_signature (tcs ! i))
                     [0..<length tcs])) \<and>
         (\<forall>i j. i < j \<and> j < length tcs \<and> case_text (tcs ! i) = case_text (tcs ! j)
            \<longrightarrow> j \<in> set idx)"
proof -
  from assms have loop: "dup_loop 0 [] tcs = Inr idx"
    by (simp add: detect_semantic_duplicates_def)
  have mem: "(i \<in> set idx) =
      (i < length tcs \<and> (\<exists>j<i. case_signature (tcs ! j) = case_signature (tcs ! i)))" for i
    using dup_loop_member [OF loop, of i] by simp
  have same: "j \<in> set idx"
    if "i < j" "j < length tcs" "case_text (tcs ! i) = case_text (tcs ! j)" for i j
    using that mem [of j] by (auto simp: case_signature_def)
  have keep: "filter (\<lambda>i. i \<notin> set idx) [0..<length tcs] =
      filter (\<lambda>i. \<forall>j<i. case_signature (tcs ! j) \<noteq> case_signature (tcs ! i)) [0..<length tcs]"
    by (rule filter_cong) (auto simp: mem)
  have rem: "remove_semantic_duplicates tcs =
      Inr (map (\<lambda>i. tcs ! i) (filter (\<lambda>i. i \<notin> set idx) [0..<length tcs]))"
  proof (cases "idx = []")
    case True
    then show ?thesis
      by (simp add: remove_semantic_duplicates_def assms map_nth)
  next
    case False
    then show ?thesis
      by (simp add: remove_semantic_duplicates_def assms enumerate_filter_nth)
  qed
  show ?thesis
  proof (intro conjI)
    show "\<forall>i. i \<in> set idx \<longleftrightarrow>
            i < length tcs \<and> (\<exists>j<i. case_signature (tcs ! j) = case_signature (tcs ! i))"
      using mem by blast
    show "remove_semantic_duplicates tcs =
           Inr (map (\<lambda>i. tcs ! i)
                  (filter (\<lambda>i. \<forall>j<i. case_signature (tcs ! j) \<noteq> case_signature (tcs ! i))
                     [0..<length tcs]))"
      using rem keep by simp
    show "\<forall>i j. i < j \<and> j < length tcs \<and> case_text (tcs ! i) = case_text (tcs ! j)
            \<longrightarrow> j \<in> set idx"
      using same by blast
  qed
qed

theorem detect_semantic_duplicates_first_kept_witness:
  "detect_semantic_duplicates
     [JObj [(''test_id'', JStr ''TC-001''), (''test_scenario'', JStr ''Apply discount code''),
            (''test_steps'', JArr [JStr ''Enter SAVE10'', JStr ''Click Apply button''])],
      JObj [(''test_id'', JStr ''TC-002''), (''test_scenario'', JStr ''Login with password''),
            (''test_steps'', JArr [JStr ''Enter password''])],
      JObj [(''test_id'', JStr ''TC-009''), (''test_scenario'', JStr ''Apply discount code''),
            (''test_steps'', JArr [JStr ''Enter SAVE10'', JStr ''Click Apply button''])]]
     = Inr [2] \<and>
   remove_semantic_duplicates
     [JObj [(''test_id'', JStr ''TC-001''), (''test_scenario'', JStr ''Apply discount code''),
            (''test_steps'', JArr [JStr ''Enter SAVE10'', JStr ''Click Apply button''])],
      JObj [(''test_id'', JStr ''TC-002''), (''test_scenario'', JStr ''Login with password''),
            (''test_steps'', JArr [JStr ''Enter password''])],
      JObj [(''test_id'', JStr ''TC-009''), (''test_scenario'', JStr ''Apply discount code''),
            (''test_steps'', JArr [JStr ''Enter SAVE10'', JStr ''Click Apply button''])]]
     = Inr
     [JObj [(''test_id'', JStr ''TC-001''), (''test_scenario'', JStr ''Apply discount code''),
            (''test_steps'', JArr [JStr ''Enter SAVE10'', JStr ''Click Apply button''])],
      JObj [(''test_id'', JStr ''TC-002''), (''test_scenario'', JStr ''Login with password''),
            (''test_steps'', JArr [JStr ''Enter password''])]]"
proof -
  let ?tcs = "[JObj [(''test_id'', JStr ''TC-001''), (''test_scenario'', JStr ''Apply discount code''),
            (''test_steps'', JArr [JStr ''Enter SAVE10'', JStr ''Click Apply button''])],
      JObj [(''test_id'', JStr ''TC-002''), (''test_scenario'', JStr ''Login with password''),
            (''test_steps'', JArr [JStr ''Enter password''])],
      JObj [(''test_id'', JStr ''TC-009''), (''test_scenario'', JStr ''Apply discount code''),
            (''test_steps'', JArr [JStr ''Enter SAVE10'', JStr ''Click Apply button''])]]"
  have h: "detect_semantic_duplicates ?tcs = Inr [2]"
    by code_simp
  have sigs: "map case_signature ?tcs =
      [Inr [''apply'', ''button'', ''click'', ''discount'', ''enter'', ''save10''],
       Inr [''enter'', ''login'', ''password''],
       Inr [''apply'', ''button'', ''click'', ''discount'', ''enter'', ''save10'']]"
    by code_simp
  have f: "filter (\<lambda>i. \<forall>j<i. case_signature (?tcs ! j) \<noteq> case_signature (?tcs ! i))
             [0..<length ?tcs] = [0, 1]"
    using sigs by (simp add: upt_conv_Cons less_Suc_eq_0_disj)
  from detect_semantic_duplicates_first_kept [OF h] f h show ?thesis by simp
qed

section \<open>Properties of the Strategy Selector\<close>

text \<open>
  C3: for every non-empty chunk list and every prompt whose domain overlap ratio (the
  fraction of the prompt's terms of length at least 3, stop words removed, that occur in the
  concatenated lowercased chunk text) is below 0.3, the selector returns strategy
  \<open>abort\<close> with \<open>should_proceed\<close> false.
\<close>

theorem out_of_domain_aborts:
  assumes "chunks \<noteq> []"
    and "domain_overlap_ratio chunks prompt < 3 / 10"
  shows "should_proceed (adaptive_test_generation_strategy chunks prompt) = False \<and>
         strategy (adaptive_test_generation_strategy chunks prompt) = ''abort''"
  using assms by (simp add: adaptive_test_generation_strategy_def Let_def)

theorem out_of_domain_aborts_witness:
  "domain_overlap_ratio
     [\<lparr>chunk_id = None, chunk_text = Some ''Discount code SAVE10 gives 10% off'',
       chunk_source = Some ''promo.md'', distance = None, doc_type = None,
       hybrid_score = Some 1, bm25_score = None\<rparr>]
     ''Generate test cases for password reset'' = 0 \<and>
   should_proceed (adaptive_test_generation_strategy
     [\<lparr>chunk_id = None, chunk_text = Some ''Discount code SAVE10 gives 10% off'',
       chunk_source = Some ''promo.md'', distance = None, doc_type = None,
       hybrid_score = Some 1, bm25_score = None\<rparr>]
     ''Generate test cases for password reset'') = False \<and>
   strategy (adaptive_test_generation_strategy
     [\<lparr>chunk_id = None, chunk_text = Some ''Discount code SAVE10 gives 10% off'',
       chunk_source = Some ''promo.md'', distance = None, doc_type = None,
       hybrid_score = Some 1, bm25_score = None\<rparr>]
     ''Generate test cases for password reset'') = ''abort''"
proof -
  let ?cs = "[\<lparr>chunk_id = None, chunk_text = Some ''Discount code SAVE10 gives 10% off'',
       chunk_source = Some ''promo.md'', distance = None, doc_type = None,
       hybrid_score = Some 1, bm25_score = None\<rparr>]"
  let ?p = "''Generate test cases for password reset''"
  have terms: "prompt_domain_terms ?p = [''password'', ''reset'']"
    by code_simp
  have m: "matched_terms ?cs ?p = 0"
    by code_simp
  have r: "domain_overlap_ratio ?cs ?p = 0"
    by (simp add: domain_overlap_ratio_def terms m)
  have ne: "?cs \<noteq> []" by simp
  have "domain_overlap_ratio ?cs ?p < 3 / 10" by (simp add: r)
  from out_of_domain_aborts [OF ne this] r show ?thesis by simp
qed

section \<open>Properties of the Hybrid Ranker\<close>

subsection \<open>Binary64 rounding\<close>

lemma round_even_nonneg: "0 \<le> y \<Longrightarrow> 0 \<le> round_even y"
  by (auto simp: round_even_def Let_def)

lemma round_even_le:
  assumes "y \<le> of_int n"
  shows "round_even y \<le> n"
proof -
  from floor_mono [OF assms] have f: "\<lfloor>y\<rfloor> \<le> n" by simp
  show ?thesis
  proof (cases "\<lfloor>y\<rfloor> = n")
    case True
    with assms have "y = of_int n" by linarith
    then show ?thesis by (simp add: round_even_def)
  next
    case False
    with f have "\<lfloor>y\<rfloor> + 1 \<le> n" by simp
    then show ?thesis using f by (auto simp: round_even_def Let_def)
  qed
qed

lemma round_even_of_int: "round_even (of_int m) = m"
  by (simp add: round_even_def)

text \<open>Rounding never leaves the unit interval: 0 and 1 are binary64 numbers.\<close>

lemma round_binary64_unit:
  assumes "0 \<le> x" and "x \<le> 1"
  shows "0 \<le> round_binary64 x \<and> round_binary64 x \<le> 1"
proof (cases "x = 0")
  case True
  then show ?thesis by (simp add: round_binary64_def)
next
  case False
  with assms have pos: "0 < x" by simp
  define u where "u = ulp_exponent x"
  have "log 2 \<bar>x\<bar> \<le> 0" using pos assms by simp
  then have "\<lfloor>log 2 \<bar>x\<bar>\<rfloor> \<le> 0" by (simp add: floor_le_iff)
  then have u: "u \<le> 0" by (simp add: u_def ulp_exponent_def)
  have p: "0 < (2::real) powr of_int u" by simp
  have "real_of_int (- u) = real (nat (- u))" using u by simp
  then have "(2::real) powr of_int (- u) = 2 powr real (nat (- u))" by (simp only:)
  also have "\<dots> = 2 ^ nat (- u)" by (simp add: powr_realpow)
  finally have "(2::real) powr of_int (- u) = 2 ^ nat (- u)" .
  then have inv: "1 / (2::real) powr of_int u = of_int (2 ^ nat (- u))"
    by (simp add: powr_minus divide_inverse)
  have "0 \<le> x / 2 powr of_int u" using pos by simp
  then have lo: "0 \<le> round_even (x / 2 powr of_int u)" by (rule round_even_nonneg)
  have "x / 2 powr of_int u \<le> 1 / 2 powr of_int u"
    using assms(2) p by (simp add: divide_right_mono)
  then have "round_even (x / 2 powr of_int u) \<le> 2 ^ nat (- u)"
    unfolding inv by (rule round_even_le)
  then have "real_of_int (round_even (x / 2 powr of_int u)) \<le> of_int (2 ^ nat (- u))"
    by (simp only: of_int_le_iff)
  then have "real_of_int (round_even (x / 2 powr of_int u)) * 2 powr of_int u
      \<le> of_int (2 ^ nat (- u)) * 2 powr of_int u"
    using p by (simp add: mult_right_mono)
  also have "\<dots> = 1" using inv p by (simp add: field_simps)
  finally have hi: "real_of_int (round_even (x / 2 powr of_int u)) * 2 powr of_int u \<le> 1" .
  from lo have "0 \<le> real_of_int (round_even (x / 2 powr of_int u)) * 2 powr of_int u" by simp
  with hi False show ?thesis by (simp add: round_binary64_def u_def)
qed

text \<open>A number that is a whole multiple of the spacing around it is its own rounding.\<close>

lemma round_binary64_exact:
  assumes "x \<noteq> 0" and "\<lfloor>log 2 \<bar>x\<bar>\<rfloor> = e" and "- 1022 \<le> e"
    and "x = of_int m * 2 powr of_int (e - 52)"
  shows "round_binary64 x = x"
proof -
  have u: "ulp_exponent x = e - 52" using assms(2,3) by (simp add: ulp_exponent_def)
  have "x / 2 powr of_int (e - 52) = of_int m" using assms(4) by simp
  then have "round_even (x / 2 powr of_int (e - 52)) = m" by (simp only: round_even_of_int)
  then have "round_binary64 x = of_int m * 2 powr of_int (e - 52)"
    using assms(1) by (simp only: round_binary64_def u if_False)
  with assms(4) show ?thesis by simp
qed

lemma round_binary64_quarter: "round_binary64 (1 / 4) = 1 / 4"
proof -
  have "\<lfloor>log 2 \<bar>1 / 4 :: real\<bar>\<rfloor> = - 2"
    by (simp add: floor_log_eq_powr_iff powr_minus)
  then show ?thesis
    by (rule round_binary64_exact [where m = "2 ^ 52", rotated])
       (simp_all add: powr_minus powr_numeral field_simps)
qed

lemma round_binary64_three_quarters: "round_binary64 (3 / 4) = 3 / 4"
proof -
  have "\<lfloor>log 2 \<bar>3 / 4 :: real\<bar>\<rfloor> = - 1"
    by (simp add: floor_log_eq_powr_iff powr_minus)
  then show ?thesis
    by (rule round_binary64_exact [where m = "3 * 2 ^ 51", rotated])
       (simp_all add: powr_minus powr_numeral field_simps)
qed

lemma round_binary64_minus_half: "round_binary64 (- (1 / 2)) = - (1 / 2)"
proof -
  have "\<lfloor>log 2 \<bar>- (1 / 2) :: real\<bar>\<rfloor> = - 1"
    by (simp add: floor_log_eq_powr_iff powr_minus)
  then show ?thesis
    by (rule round_binary64_exact [where m = "- (2 ^ 52)", rotated])
       (simp_all add: powr_minus powr_numeral field_simps)
qed

text \<open>
  Where the real difference and the binary64 difference part: a distance of \<open>-1e-20\<close> is
  absorbed, and the difference is exactly 1.
\<close>

lemma round_binary64_absorbs: "round_binary64 (1 - (- 1 / 10 ^ 20)) = 1"
proof -
  define x :: real where "x = 1 - (- 1 / 10 ^ 20)"
  have x: "1 \<le> x" "x < 2" "x \<noteq> 0" by (simp_all add: x_def)
  have "\<lfloor>log 2 \<bar>x\<bar>\<rfloor> = 0"
    using x by (simp add: floor_log_eq_powr_iff)
  then have u: "ulp_exponent x = - 52" by (simp add: ulp_exponent_def)
  have p: "(2::real) powr of_int (- 52) = 1 / 2 ^ 52"
    by (simp add: powr_minus powr_numeral field_simps)
  have y: "x / (1 / 2 ^ 52) = 2 ^ 52 + 2 ^ 52 / 10 ^ 20"
    by (simp add: x_def field_simps)
  have small: "(2::real) ^ 52 / 10 ^ 20 < 1 / 2" by simp
  have nonneg: "0 \<le> (2::real) ^ 52 / 10 ^ 20" by simp
  have fl: "\<lfloor>2 ^ 52 + (2::real) ^ 52 / 10 ^ 20\<rfloor> = 2 ^ 52"
    using small nonneg by (intro floor_unique) simp_all
  have "round_even (x / (1 / 2 ^ 52)) = 2 ^ 52"
    unfolding y using small by (simp add: round_even_def fl Let_def)
  then have "round_binary64 x = of_int (2 ^ 52) * (1 / 2 ^ 52)"
    using x(3) by (simp only: round_binary64_def u p if_False)
  then show ?thesis by (simp add: x_def)
qed

subsection \<open>The ranker\<close>

lemma rank_loop_step:
  "lookup h a = Some (Dict chunk) \<Longrightarrow> r < length h \<Longrightarrow> h ! r = List ranked \<Longrightarrow>
   rank_loop env ws query r h (a # as) =
   rank_loop env ws query r
     ((h @ [Dict (rank_chunk env ws query chunk)])[r := List (ranked @ [length h])]) as"
  by (simp add: alloc_def assign_def lookup_def Let_def nth_append)

lemma rank_loop_stop:
  "lookup h a = Some (Dict chunk) \<Longrightarrow> r < length h \<Longrightarrow> h ! r = Dict c' \<Longrightarrow>
   rank_loop env ws query r h (a # as) =
   (h @ [Dict (rank_chunk env ws query chunk)], Some Not_A_List)"
  by (simp add: alloc_def assign_def lookup_def Let_def nth_append)

lemma rank_loop_frame:
  "n \<le> r \<Longrightarrow> r < length h \<Longrightarrow>
   take n (fst (rank_loop env ws query r h as)) = take n h \<and>
   length h \<le> length (fst (rank_loop env ws query r h as))"
proof (induction as arbitrary: h)
  case Nil
  then show ?case by simp
next
  case (Cons a as)
  show ?case
  proof (cases "lookup h a")
    case None
    then show ?thesis by simp
  next
    case (Some ob)
    show ?thesis
    proof (cases ob)
      case (List xs)
      with Some show ?thesis by simp
    next
      case (Dict chunk)
      with Some have a: "lookup h a = Some (Dict chunk)" by simp
      show ?thesis
      proof (cases "h ! r")
        case (Dict c')
        from rank_loop_stop [OF a Cons.prems(2) this] Cons.prems show ?thesis by simp
      next
        case (List ranked)
        define h4 where
          "h4 = (h @ [Dict (rank_chunk env ws query chunk)])[r := List (ranked @ [length h])]"
        have "r < length h4" using Cons.prems by (simp add: h4_def)
        from Cons.IH [OF Cons.prems(1) this]
        have "take n (fst (rank_loop env ws query r h4 as)) = take n h4"
          and "length h4 \<le> length (fst (rank_loop env ws query r h4 as))"
          by simp_all
        moreover have "take n h4 = take n h"
          using Cons.prems by (simp add: h4_def)
        moreover have "length h4 = Suc (length h)"
          by (simp add: h4_def)
        moreover have "rank_loop env ws query r h (a # as) = rank_loop env ws query r h4 as"
          unfolding h4_def by (rule rank_loop_step [OF a Cons.prems(2) List])
        ultimately show ?thesis by simp
      qed
    qed
  qed
qed

lemma rank_loop_fresh:
  "fresh_list h r \<Longrightarrow> snd (rank_loop env ws query r h as) = None \<Longrightarrow>
   fresh_list (fst (rank_loop env ws query r h as)) r"
proof (induction as arbitrary: h)
  case Nil
  then show ?case by simp
next
  case (Cons a as)
  from Cons.prems(1) obtain ranked where r: "r < length h" and hr: "h ! r = List ranked"
    and fr: "list_all (\<lambda>a. r < a \<and> a < length h) ranked"
    by (auto simp: fresh_list_def lookup_def split: if_splits obj.splits)
  from Cons.prems(2) obtain chunk where a: "lookup h a = Some (Dict chunk)"
    by (auto split: option.splits obj.splits)
  define h4 where
    "h4 = (h @ [Dict (rank_chunk env ws query chunk)])[r := List (ranked @ [length h])]"
  have step: "rank_loop env ws query r h (a # as) = rank_loop env ws query r h4 as"
    unfolding h4_def by (rule rank_loop_step [OF a r hr])
  have "list_all (\<lambda>a. r < a \<and> a < length h4) (ranked @ [length h])"
    using fr r by (auto simp: h4_def list_all_iff)
  then have f4: "fresh_list h4 r"
    using r by (simp add: fresh_list_def lookup_def h4_def)
  from Cons.prems(2) have "snd (rank_loop env ws query r h4 as) = None"
    unfolding step .
  from Cons.IH [OF f4 this] show ?case
    unfolding step .
qed

text \<open>
  C10: whatever the store, the input reference, the query and the weights, and whether the
  call returns or raises, every object that existed before the call (the input list and
  every dict it holds among them) is the same after the call; when the call returns, the
  ranked list is a new object at a new reference and holds only references to dicts
  allocated during the call, the copies that carry \<open>doc_type\<close>, \<open>hybrid_score\<close> and
  \<open>bm25_score\<close>.
\<close>

theorem hybrid_rank_chunks_store_frame:
  assumes "hybrid_rank_chunks_store env h chunks query weights_arg = (h', res)"
  shows "take (length h) h' = h \<and>
         (\<forall>r. res = Inr r \<longrightarrow> length h \<le> r \<and> fresh_list h' r)"
proof (cases "lookup h chunks")
  case None
  with assms show ?thesis by (auto simp: hybrid_rank_chunks_store_def)
next
  case (Some ob)
  show ?thesis
  proof (cases ob)
    case (Dict c)
    with Some assms show ?thesis by (auto simp: hybrid_rank_chunks_store_def)
  next
    case (List refs)
    define ws where "ws = (case weights_arg of None \<Rightarrow> default_weights | Some w \<Rightarrow> w)"
    define h0 where "h0 = h @ [List []]"
    define loop where "loop = rank_loop env ws query (length h) h0 refs"
    have r0: "length h < length h0" by (simp add: h0_def)
    from rank_loop_frame [OF le_refl r0, of env ws query refs]
    have frame: "take (length h) (fst loop) = h" and grow: "length h0 \<le> length (fst loop)"
      by (simp_all add: loop_def h0_def)
    have fresh0: "fresh_list h0 (length h)"
      by (simp add: fresh_list_def lookup_def h0_def)
    have unf: "hybrid_rank_chunks_store env h chunks query weights_arg =
        (case snd loop of
           Some e \<Rightarrow> (fst loop, Inl e)
         | None \<Rightarrow>
            (case lookup (fst loop) (length h) of
               Some (List ranked) \<Rightarrow>
                 (assign (fst loop) (length h) (List (sort_key (key_at (fst loop)) ranked)),
                  Inr (length h))
             | _ \<Rightarrow> (fst loop, Inl Not_A_List)))"
      using Some List
      by (simp add: hybrid_rank_chunks_store_def alloc_def Let_def ws_def h0_def loop_def
          case_prod_beta split: option.split obj.split)
    show ?thesis
    proof (cases "snd loop")
      case (Some e)
      with assms unf frame show ?thesis by auto
    next
      case None
      with rank_loop_fresh [OF fresh0, of env ws query refs]
      have fr: "fresh_list (fst loop) (length h)" by (simp add: loop_def)
      then obtain ranked where lk: "lookup (fst loop) (length h) = Some (List ranked)"
        and all: "list_all (\<lambda>a. length h < a \<and> a < length (fst loop)) ranked"
        by (auto simp: fresh_list_def split: option.splits obj.splits)
      from assms unf None lk have h': "h' = (fst loop)[length h := List (sort_key (key_at (fst loop)) ranked)]"
        and res: "res = Inr (length h)"
        by (simp_all add: assign_def)
      have "take (length h) h' = h" using frame by (simp add: h')
      moreover have "fresh_list h' (length h)"
        using all grow r0 by (simp add: fresh_list_def lookup_def h' list_all_iff)
      ultimately show ?thesis using res by simp
    qed
  qed
qed


theorem hybrid_rank_chunks_store_frame_witness:
  "hybrid_rank_chunks_store
     \<lparr>total_docs = 0, df_map = (\<lambda>t. None), matcher_doc_type = (\<lambda>s. Some ''general'')\<rparr>
     [Dict \<lparr>chunk_id = None, chunk_text = Some ''abc'', chunk_source = Some ''a.md'',
            distance = Some (3 / 4), doc_type = None, hybrid_score = None, bm25_score = None\<rparr>,
      Dict \<lparr>chunk_id = None, chunk_text = Some ''cart total'', chunk_source = Some ''b.md'',
            distance = Some (1 / 4), doc_type = None, hybrid_score = None, bm25_score = None\<rparr>,
      List [0, 1]] 2 [] None =
   ([Dict \<lparr>chunk_id = None, chunk_text = Some ''abc'', chunk_source = Some ''a.md'',
            distance = Some (3 / 4), doc_type = None, hybrid_score = None, bm25_score = None\<rparr>,
     Dict \<lparr>chunk_id = None, chunk_text = Some ''cart total'', chunk_source = Some ''b.md'',
            distance = Some (1 / 4), doc_type = None, hybrid_score = None, bm25_score = None\<rparr>,
     List [0, 1],
     List [5, 4],
     Dict \<lparr>chunk_id = None, chunk_text = Some ''abc'', chunk_source = Some ''a.md'',
            distance = Some (3 / 4), doc_type = Some ''general'', hybrid_score = Some (1 / 5),
            bm25_score = Some 0\<rparr>,
     Dict \<lparr>chunk_id = None, chunk_text = Some ''cart total'', chunk_source = Some ''b.md'',
            distance = Some (1 / 4), doc_type = Some ''general'', hybrid_score = Some (9 / 20),
            bm25_score = Some 0\<rparr>], Inr 3) \<and>
   fresh_list
    [Dict \<lparr>chunk_id = None, chunk_text = Some ''abc'', chunk_source = Some ''a.md'',
            distance = Some (3 / 4), doc_type = None, hybrid_score = None, bm25_score = None\<rparr>,
     Dict \<lparr>chunk_id = None, chunk_text = Some ''cart total'', chunk_source = Some ''b.md'',
            distance = Some (1 / 4), doc_type = None, hybrid_score = None, bm25_score = None\<rparr>,
     List [0, 1],
     List [5, 4],
     Dict \<lparr>chunk_id = None, chunk_text = Some ''abc'', chunk_source = Some ''a.md'',
            distance = Some (3 / 4), doc_type = Some ''general'', hybrid_score = Some (1 / 5),
            bm25_score = Some 0\<rparr>,
     Dict \<lparr>chunk_id = None, chunk_text = Some ''cart total'', chunk_source = Some ''b.md'',
            distance = Some (1 / 4), doc_type = Some ''general'', hybrid_score = Some (9 / 20),
            bm25_score = Some 0\<rparr>] 3"
proof -
  let ?env = "\<lparr>total_docs = 0, df_map = (\<lambda>t. None), matcher_doc_type = (\<lambda>s. Some ''general'')\<rparr>"
  let ?c0 = "\<lparr>chunk_id = None, chunk_text = Some ''abc'', chunk_source = Some ''a.md'',
            distance = Some (3 / 4), doc_type = None, hybrid_score = None, bm25_score = None\<rparr>"
  let ?c1 = "\<lparr>chunk_id = None, chunk_text = Some ''cart total'', chunk_source = Some ''b.md'',
            distance = Some (1 / 4), doc_type = None, hybrid_score = None, bm25_score = None\<rparr>"
  have s0: "rank_chunk ?env default_weights [] ?c0 =
      ?c0\<lparr>doc_type := Some ''general'', hybrid_score := Some (1 / 5), bm25_score := Some 0\<rparr>"
    by (simp add: rank_chunk_def chunk_hybrid_score_def chunk_doc_type_def
        classify_document_type_def embedding_score_def chunk_distance_def bm25_normalized_def
        calculate_bm25_score_def metadata_score_def phrase_score_def doc_type_weight_def
        default_weights_def get_text_def lower_def Let_def
        round_binary64_quarter round_binary64_three_quarters)
  have s1: "rank_chunk ?env default_weights [] ?c1 =
      ?c1\<lparr>doc_type := Some ''general'', hybrid_score := Some (9 / 20), bm25_score := Some 0\<rparr>"
    by (simp add: rank_chunk_def chunk_hybrid_score_def chunk_doc_type_def
        classify_document_type_def embedding_score_def chunk_distance_def bm25_normalized_def
        calculate_bm25_score_def metadata_score_def phrase_score_def doc_type_weight_def
        default_weights_def get_text_def lower_def Let_def
        round_binary64_quarter round_binary64_three_quarters)
  have run: "hybrid_rank_chunks_store ?env [Dict ?c0, Dict ?c1, List [0, 1]] 2 [] None =
      ([Dict ?c0, Dict ?c1, List [0, 1], List [5, 4],
        Dict (?c0\<lparr>doc_type := Some ''general'', hybrid_score := Some (1 / 5), bm25_score := Some 0\<rparr>),
        Dict (?c1\<lparr>doc_type := Some ''general'', hybrid_score := Some (9 / 20), bm25_score := Some 0\<rparr>)],
       Inr 3)"
    by (simp add: hybrid_rank_chunks_store_def alloc_def assign_def lookup_def Let_def s0 s1
        key_at_def sort_key_of_def chunk_doc_type_def classify_document_type_def)
  from hybrid_rank_chunks_store_frame [OF run] run show ?thesis by simp
qed

text \<open>
  C6, as stated: the embedding component is clamped to \<open>[0,1]\<close>. It fails: the code
  computes \<open>1.0 - distance\<close> and nothing else. A chunk supplied with distance 1.5 gets the
  component -0.5, which is below 0, and with an empty query its hybrid score is negative.
\<close>

theorem embedding_component_clamped_counterexample:
  "embedding_score
     \<lparr>chunk_id = None, chunk_text = Some ''abc'', chunk_source = Some ''a.md'',
      distance = Some (3 / 2), doc_type = None, hybrid_score = None, bm25_score = None\<rparr>
     = - 1 / 2 \<and>
   \<not> (0 \<le> embedding_score
     \<lparr>chunk_id = None, chunk_text = Some ''abc'', chunk_source = Some ''a.md'',
      distance = Some (3 / 2), doc_type = None, hybrid_score = None, bm25_score = None\<rparr>) \<and>
   map (\<lambda>c. case hybrid_score c of Some s \<Rightarrow> s < 0 | None \<Rightarrow> False)
     (hybrid_rank_chunks
       \<lparr>total_docs = 0, df_map = (\<lambda>t. None), matcher_doc_type = (\<lambda>s. Some ''general'')\<rparr>
       [\<lparr>chunk_id = None, chunk_text = Some ''abc'', chunk_source = Some ''a.md'',
         distance = Some (3 / 2), doc_type = None, hybrid_score = None, bm25_score = None\<rparr>]
       [] None) = [True]"
  by (simp add: hybrid_rank_chunks_def rank_chunk_def chunk_hybrid_score_def chunk_doc_type_def
      classify_document_type_def embedding_score_def chunk_distance_def bm25_normalized_def
      calculate_bm25_score_def metadata_score_def phrase_score_def doc_type_weight_def
      default_weights_def get_text_def lower_def Let_def round_binary64_minus_half)

text \<open>
  C6, amended: every chunk given to the Hybrid Ranker is in the ranked list with its scores,
  and the embedding component that enters its weighted sum is 1.0 minus the supplied
  distance (1.0 minus 1.0 when no distance is supplied), as the binary64 subtraction gives
  it, with no clamping. The component lies in \<open>[0,1]\<close> whenever the supplied distance lies
  in \<open>[0,1]\<close>; for a distance outside \<open>[0,1]\<close> nothing keeps it there.
\<close>

theorem embedding_component_unclamped:
  "(c \<in> set chunks \<longrightarrow>
      rank_chunk env ws query c \<in> set (hybrid_rank_chunks env chunks query (Some ws))) \<and>
   hybrid_score (rank_chunk env ws query c) =
     Some ((embedding_score c * w_embedding ws
            + bm25_normalized env query c * w_bm25 ws
            + metadata_score c * w_metadata ws
            + phrase_score query c * w_phrase ws) * doc_type_weight (chunk_doc_type env c)) \<and>
   embedding_score c = round_binary64 (1 - (case distance c of Some d \<Rightarrow> d | None \<Rightarrow> 1)) \<and>
   (0 \<le> (case distance c of Some d \<Rightarrow> d | None \<Rightarrow> 1) \<and>
    (case distance c of Some d \<Rightarrow> d | None \<Rightarrow> 1) \<le> 1 \<longrightarrow>
    0 \<le> embedding_score c \<and> embedding_score c \<le> 1)"
proof (intro conjI impI)
  assume "c \<in> set chunks"
  then show "rank_chunk env ws query c \<in> set (hybrid_rank_chunks env chunks query (Some ws))"
    by (simp add: hybrid_rank_chunks_def)
next
  show "hybrid_score (rank_chunk env ws query c) =
     Some ((embedding_score c * w_embedding ws
            + bm25_normalized env query c * w_bm25 ws
            + metadata_score c * w_metadata ws
            + phrase_score query c * w_phrase ws) * doc_type_weight (chunk_doc_type env c))"
    by (simp add: rank_chunk_def chunk_hybrid_score_def)
next
  show "embedding_score c = round_binary64 (1 - (case distance c of Some d \<Rightarrow> d | None \<Rightarrow> 1))"
    by (simp add: embedding_score_def chunk_distance_def)
next
  assume d: "0 \<le> (case distance c of Some d \<Rightarrow> d | None \<Rightarrow> 1) \<and>
             (case distance c of Some d \<Rightarrow> d | None \<Rightarrow> 1) \<le> 1"
  then have "0 \<le> 1 - chunk_distance c" and "1 - chunk_distance c \<le> 1"
    by (simp_all add: chunk_distance_def)
  from round_binary64_unit [OF this]
  show "0 \<le> embedding_score c" and "embedding_score c \<le> 1"
    by (simp_all add: embedding_score_def)
qed

theorem embedding_component_unclamped_witness:
  "rank_chunk
     \<lparr>total_docs = 0, df_map = (\<lambda>t. None), matcher_doc_type = (\<lambda>s. Some ''general'')\<rparr>
     default_weights []
     \<lparr>chunk_id = None, chunk_text = Some ''cart total'', chunk_source = Some ''b.md'',
      distance = Some (1 / 4), doc_type = None, hybrid_score = None, bm25_score = None\<rparr>
   \<in> set (hybrid_rank_chunks
     \<lparr>total_docs = 0, df_map = (\<lambda>t. None), matcher_doc_type = (\<lambda>s. Some ''general'')\<rparr>
     [\<lparr>chunk_id = None, chunk_text = Some ''cart total'', chunk_source = Some ''b.md'',
       distance = Some (1 / 4), doc_type = None, hybrid_score = None, bm25_score = None\<rparr>]
     [] (Some default_weights)) \<and>
   embedding_score
     \<lparr>chunk_id = None, chunk_text = Some ''cart total'', chunk_source = Some ''b.md'',
      distance = Some (1 / 4), doc_type = None, hybrid_score = None, bm25_score = None\<rparr>
     = 3 / 4 \<and>
   0 \<le> embedding_score
     \<lparr>chunk_id = None, chunk_text = Some ''cart total'', chunk_source = Some ''b.md'',
      distance = Some (1 / 4), doc_type = None, hybrid_score = None, bm25_score = None\<rparr> \<and>
   embedding_score
     \<lparr>chunk_id = None, chunk_text = Some ''cart total'', chunk_source = Some ''b.md'',
      distance = Some (1 / 4), doc_type = None, hybrid_score = None, bm25_score = None\<rparr>
     \<le> 1"
  using embedding_component_unclamped [of
     "\<lparr>chunk_id = None, chunk_text = Some ''cart total'', chunk_source = Some ''b.md'',
      distance = Some (1 / 4), doc_type = None, hybrid_score = None, bm25_score = None\<rparr>"
     "[\<lparr>chunk_id = None, chunk_text = Some ''cart total'', chunk_source = Some ''b.md'',
       distance = Some (1 / 4), doc_type = None, hybrid_score = None, bm25_score = None\<rparr>]"
     "\<lparr>total_docs = 0, df_map = (\<lambda>t. None), matcher_doc_type = (\<lambda>s. Some ''general'')\<rparr>"
     default_weights "[]"]
  by (simp add: round_binary64_three_quarters)

section \<open>Properties of the step mapper\<close>

lemma foldl_max_ge: "(a::real) \<le> foldl max a xs"
proof (induction xs arbitrary: a)
  case Nil
  show ?case by simp
next
  case (Cons x xs)
  have "a \<le> max a x" by simp
  also have "\<dots> \<le> foldl max (max a x) xs" by (rule Cons.IH)
  finally show ?case by simp
qed

lemma is_verification_step_iff:
  "fst (is_verification_step env s) =
     (has_check_literal (strip (lower s)) \<or>
      (\<exists>v a. max_similarity env (strip (lower s)) verification_intents = Some v \<and>
             max_similarity env (strip (lower s)) action_intents = Some a \<and>
             v > 30 / 100 \<and> v > a + 8 / 100))"
  by (auto simp: is_verification_step_def Let_def split: option.splits)

lemma is_verification_step_confidence:
  "fst (is_verification_step env s) \<Longrightarrow> snd (is_verification_step env s) > 30 / 100"
  by (auto simp: is_verification_step_def Let_def split: option.splits if_splits)

lemma process_step_verification:
  assumes "fst (is_verification_step env (clean_step step))"
  shows "process_step env st step = (fst st @ verification_placeholder (clean_step step), snd st)"
proof -
  from is_verification_step_confidence [OF assms]
  have "snd (is_verification_step env (clean_step step)) > 30 / 100" .
  with assms show ?thesis
    by (simp add: process_step_def Let_def case_prod_beta)
qed

lemma process_step_appends: "prefix (fst st) (fst (process_step env st step))"
  by (simp add: process_step_def Let_def case_prod_beta)

lemma run_steps_appends: "prefix (fst st) (fst (foldl (process_step env) st steps))"
proof (induction steps arbitrary: st)
  case Nil
  show ?case by simp
next
  case (Cons s steps)
  have "prefix (fst st) (fst (process_step env st s))" by (rule process_step_appends)
  also have "prefix \<dots> (fst (foldl (process_step env) (process_step env st s) steps))"
    by (rule Cons.IH)
  finally show ?case by simp
qed

lemma physical_lines_not_empty: "physical_lines s \<noteq> []"
  by (induction s) (simp_all add: physical_lines_def split: list.split)

lemma physical_lines_Cons:
  "physical_lines (c # s) =
     (if is_line_end c then [] # physical_lines s
      else (case physical_lines s of [] \<Rightarrow> [[c]] | l # rest \<Rightarrow> (c # l) # rest))"
  by (simp add: physical_lines_def)

lemma physical_lines_one:
  "list_all (\<lambda>c. \<not> is_line_end c) s \<Longrightarrow> physical_lines s = [s]"
  by (induction s) (simp_all add: physical_lines_Cons, simp add: physical_lines_def)

lemma physical_lines_break:
  "is_line_end c \<Longrightarrow> physical_lines (a @ c # b) = physical_lines a @ physical_lines b"
proof (induction a)
  case Nil
  then show ?case by (simp add: physical_lines_Cons) (simp add: physical_lines_def)
next
  case (Cons x a)
  then show ?case
    using physical_lines_not_empty [of a]
    by (cases "physical_lines a") (simp_all add: physical_lines_Cons)
qed

lemma script_lines_placeholder:
  assumes "list_all (\<lambda>c. \<not> is_line_end c) cleaned"
  shows "script_lines (verification_placeholder cleaned) = verification_placeholder cleaned"
proof -
  have nl: "is_line_end (CHR 0x0A)" by (simp add: is_line_end_def)
  have l1: "list_all (\<lambda>c. \<not> is_line_end c) (''    # VERIFICATION: '' @ cleaned)"
    using assms by (simp add: is_line_end_def)
  have l2: "list_all (\<lambda>c. \<not> is_line_end c)
              ''    # TODO: Implement assertion for this verification step''"
    by (simp add: is_line_end_def)
  have "script_lines (verification_placeholder cleaned) =
        physical_lines ((''    # VERIFICATION: '' @ cleaned) @ CHR 0x0A #
          (''    # TODO: Implement assertion for this verification step'' @ CHR 0x0A # []))"
    by (simp add: script_lines_def verification_placeholder_def)
  also have "\<dots> = physical_lines (''    # VERIFICATION: '' @ cleaned) @
        physical_lines ''    # TODO: Implement assertion for this verification step'' @
        physical_lines []"
    by (simp only: physical_lines_break [OF nl])
  also have "\<dots> = verification_placeholder cleaned"
    by (simp only: physical_lines_one [OF l1] physical_lines_one [OF l2])
       (simp add: physical_lines_def verification_placeholder_def)
  finally show ?thesis .
qed

text \<open>
  C8, as stated, over every step. It fails for a step that holds a line break: the step is
  written into the comment as it is, so what follows the line break becomes a physical line
  of its own. The step \<open>Check if ok\<close>, line feed, \<open>    page.click_button('submit')\<close>
  holds \<open>check if\<close> and is classified as a verification step; the body emitted for it has
  the click as its second physical line, and that line is no comment.
\<close>

theorem verification_step_line_break_counterexample:
  "fst (is_verification_step
     \<lparr>similarity = (\<lambda>a b. Some 0),
      later_rules = (\<lambda>s st. ([''    page.click_button('submit')'', ''''], snd st))\<rparr>
     (clean_step (''Check if ok\<newline>    page.click_button('submit')''))) \<and>
   generate_generic_fallback
     \<lparr>similarity = (\<lambda>a b. Some 0),
      later_rules = (\<lambda>s st. ([''    page.click_button('submit')'', ''''], snd st))\<rparr>
     [''Check if ok\<newline>    page.click_button('submit')''] =
     [''    # VERIFICATION: Check if ok\<newline>    page.click_button('submit')'',
      ''    # TODO: Implement assertion for this verification step'',
      ''''] \<and>
   script_lines
     [''    # VERIFICATION: Check if ok\<newline>    page.click_button('submit')'',
      ''    # TODO: Implement assertion for this verification step'',
      ''''] =
     [''    # VERIFICATION: Check if ok'',
      ''    page.click_button('submit')'',
      ''    # TODO: Implement assertion for this verification step'',
      ''''] \<and>
   \<not> is_comment_or_blank ''    page.click_button('submit')''"
proof -
  let ?env = "\<lparr>similarity = (\<lambda>a b. Some 0),
      later_rules = (\<lambda>s st. ([''    page.click_button('submit')'', ''''], snd st))\<rparr>"
  let ?s = "''Check if ok\<newline>    page.click_button('submit')''"
  have cl: "clean_step ?s = ?s"
    by (simp add: clean_step_def is_digit_def)
  have lit: "has_check_literal (strip (lower ?s))"
    by code_simp
  then have v: "fst (is_verification_step ?env (clean_step ?s))"
    unfolding cl by (simp add: is_verification_step_def Let_def)
  have g: "generate_generic_fallback ?env [?s] =
     [''    # VERIFICATION: Check if ok\<newline>    page.click_button('submit')'',
      ''    # TODO: Implement assertion for this verification step'',
      '''']"
    by (simp add: generate_generic_fallback_def process_step_verification [OF v] cl
        verification_placeholder_def)
  have l: "script_lines
     [''    # VERIFICATION: Check if ok\<newline>    page.click_button('submit')'',
      ''    # TODO: Implement assertion for this verification step'',
      ''''] =
     [''    # VERIFICATION: Check if ok'',
      ''    page.click_button('submit')'',
      ''    # TODO: Implement assertion for this verification step'',
      '''']"
    by (simp add: script_lines_def physical_lines_def is_line_end_def)
  have n: "\<not> is_comment_or_blank ''    page.click_button('submit')''"
    by (simp add: is_comment_or_blank_def)
  from v g l n show ?thesis by simp
qed

text \<open>
  C8, amended: for every step whose text, as the mapper cleans it, holds no line feed and no
  carriage return, and whatever the later rules of the cascade do: when the cleaned step
  contains \<open>check if\<close>, \<open>check that\<close> or \<open>check whether\<close>, or its greatest
  similarity to the verification intents is above 0.30 and above the greatest similarity to
  the action intents plus 0.08, the matcher classifies it as a verification step, and the
  mapper appends for it exactly the two comment lines and the empty line of the placeholder
  and leaves the filled fields as they are. A list holding only this step gives exactly the
  placeholder; after any earlier steps the body is theirs followed by the placeholder; and
  whatever steps follow, the body returned begins with that. In the script the placeholder
  is exactly three physical lines, each a comment or empty: no click, fill, select or check
  line is emitted for the step.
\<close>

theorem verification_step_emits_placeholder:
  assumes "has_check_literal (strip (lower (clean_step step))) \<or>
           (\<exists>v a. max_similarity env (strip (lower (clean_step step))) verification_intents = Some v \<and>
                  max_similarity env (strip (lower (clean_step step))) action_intents = Some a \<and>
                  v > 30 / 100 \<and> v > a + 8 / 100)"
    and "list_all (\<lambda>c. \<not> is_line_end c) (clean_step step)"
  shows "fst (is_verification_step env (clean_step step)) \<and>
         process_step env (body, filled) step =
           (body @ [''    # VERIFICATION: '' @ clean_step step,
                    ''    # TODO: Implement assertion for this verification step'',
                    ''''], filled) \<and>
         generate_generic_fallback env [step] =
           [''    # VERIFICATION: '' @ clean_step step,
            ''    # TODO: Implement assertion for this verification step'',
            ''''] \<and>
         generate_generic_fallback env (pre @ [step]) =
           generate_generic_fallback env pre @
           [''    # VERIFICATION: '' @ clean_step step,
            ''    # TODO: Implement assertion for this verification step'',
            ''''] \<and>
         prefix (generate_generic_fallback env pre @
                 [''    # VERIFICATION: '' @ clean_step step,
                  ''    # TODO: Implement assertion for this verification step'',
                  ''''])
                (generate_generic_fallback env (pre @ step # post)) \<and>
         script_lines [''    # VERIFICATION: '' @ clean_step step,
                       ''    # TODO: Implement assertion for this verification step'',
                       ''''] =
           [''    # VERIFICATION: '' @ clean_step step,
            ''    # TODO: Implement assertion for this verification step'',
            ''''] \<and>
         list_all is_comment_or_blank
           (script_lines [''    # VERIFICATION: '' @ clean_step step,
                          ''    # TODO: Implement assertion for this verification step'',
                          ''''])"
proof -
  define P where "P = verification_placeholder (clean_step step)"
  have P: "[''    # VERIFICATION: '' @ clean_step step,
            ''    # TODO: Implement assertion for this verification step'',
            ''''] = P"
    by (simp add: P_def verification_placeholder_def)
  from assms(1) have v: "fst (is_verification_step env (clean_step step))"
    by (simp only: is_verification_step_iff)
  have turn: "process_step env st step = (fst st @ P, snd st)" for st
    unfolding P_def by (rule process_step_verification [OF v])
  have one: "generate_generic_fallback env [step] = P"
    by (simp add: generate_generic_fallback_def turn)
  have last: "generate_generic_fallback env (pre @ [step]) = generate_generic_fallback env pre @ P"
    by (simp add: generate_generic_fallback_def turn)
  have "generate_generic_fallback env (pre @ step # post) =
        fst (foldl (process_step env)
              (generate_generic_fallback env pre @ P, snd (foldl (process_step env) ([], []) pre))
              post)"
    by (simp add: generate_generic_fallback_def turn)
  moreover have "prefix (fst (generate_generic_fallback env pre @ P,
                              snd (foldl (process_step env) ([], []) pre)))
        (fst (foldl (process_step env)
              (generate_generic_fallback env pre @ P, snd (foldl (process_step env) ([], []) pre))
              post))"
    by (rule run_steps_appends)
  ultimately have later: "prefix (generate_generic_fallback env pre @ P)
        (generate_generic_fallback env (pre @ step # post))"
    by simp
  have lines: "script_lines P = P"
    unfolding P_def by (rule script_lines_placeholder [OF assms(2)])
  have "list_all is_comment_or_blank P"
    by (simp add: P_def verification_placeholder_def is_comment_or_blank_def)
  then have quiet: "list_all is_comment_or_blank (script_lines P)"
    by (simp only: lines)
  from v turn [of "(body, filled)"] one last later lines quiet show ?thesis
    unfolding P by simp
qed

theorem verification_step_emits_placeholder_witness:
  "generate_generic_fallback
     \<lparr>similarity = (\<lambda>a b. Some 0),
      later_rules = (\<lambda>s st. ([''    page.click_button('submit')'', ''''], snd st))\<rparr>
     [''1. Click the submit button'', ''3. Check if the discount is applied''] =
     [''    page.click_button('submit')'', '''',
      ''    # VERIFICATION: Check if the discount is applied'',
      ''    # TODO: Implement assertion for this verification step'',
      ''''] \<and>
   prefix
     [''    page.click_button('submit')'', '''',
      ''    # VERIFICATION: Check if the discount is applied'',
      ''    # TODO: Implement assertion for this verification step'',
      '''']
     (generate_generic_fallback
        \<lparr>similarity = (\<lambda>a b. Some 0),
         later_rules = (\<lambda>s st. ([''    page.click_button('submit')'', ''''], snd st))\<rparr>
        [''1. Click the submit button'', ''3. Check if the discount is applied'',
         ''4. Click the submit button'']) \<and>
   script_lines
     [''    # VERIFICATION: Check if the discount is applied'',
      ''    # TODO: Implement assertion for this verification step'',
      ''''] =
     [''    # VERIFICATION: Check if the discount is applied'',
      ''    # TODO: Implement assertion for this verification step'',
      '''']"
proof -
  let ?env = "\<lparr>similarity = (\<lambda>a b. Some 0),
      later_rules = (\<lambda>s st. ([''    page.click_button('submit')'', ''''], snd st))\<rparr>"
  have cl: "clean_step ''3. Check if the discount is applied'' = ''Check if the discount is applied''"
    by (simp add: clean_step_def is_digit_def is_space_def)
  have "has_check_literal (strip (lower (clean_step ''3. Check if the discount is applied'')))"
    unfolding cl by code_simp
  then have h1: "has_check_literal (strip (lower (clean_step ''3. Check if the discount is applied''))) \<or>
           (\<exists>v a. max_similarity ?env (strip (lower (clean_step ''3. Check if the discount is applied''))) verification_intents = Some v \<and>
                  max_similarity ?env (strip (lower (clean_step ''3. Check if the discount is applied''))) action_intents = Some a \<and>
                  v > 30 / 100 \<and> v > a + 8 / 100)"
    by (rule disjI1)
  have h2: "list_all (\<lambda>c. \<not> is_line_end c) (clean_step ''3. Check if the discount is applied'')"
    unfolding cl by (simp add: is_line_end_def)
  have c1: "clean_step ''1. Click the submit button'' = ''Click the submit button''"
    by (simp add: clean_step_def is_digit_def is_space_def)
  have n1: "\<not> has_check_literal (strip (lower ''Click the submit button''))"
    by code_simp
  have v1: "is_verification_step ?env ''Click the submit button'' = (False, 0)"
    using n1
    by (simp add: is_verification_step_def Let_def max_similarity_def verification_intents_def
        action_intents_def)
  have p1: "generate_generic_fallback ?env [''1. Click the submit button''] =
      [''    page.click_button('submit')'', '''']"
    by (simp add: generate_generic_fallback_def process_step_def c1 v1)
  from verification_step_emits_placeholder [OF h1 h2, of "[]" "[]" "[''1. Click the submit button'']"
      "[''4. Click the submit button'']"]
  show ?thesis
    unfolding cl p1 by simp
qed

section \<open>Properties of the hallucination check\<close>

lemma contains_sublist: "contains s sub = sublist sub s"
  by (induction s) (auto simp: sublist_Cons_right)

lemma contains_take: "contains s x \<Longrightarrow> contains s (take n x)"
  unfolding contains_sublist
  by (meson sublist_order.order_trans sublist_take)

lemma check_value_verbatim:
  "contains ctx (lower (snd tok)) \<Longrightarrow> contains ctx (check_value tok)"
  by (simp add: check_value_def Let_def contains_take)

lemma verbatim_not_fabricated:
  "contains ctx (lower (snd tok)) \<Longrightarrow> \<not> fabricated_token env tc ctx tok"
  by (simp add: fabricated_token_def check_value_verbatim)

lemma dict_get_set_other: "k' \<noteq> k \<Longrightarrow> dict_get (dict_set d k v) k' = dict_get d k'"
  by (simp add: dict_get_def dict_set_def update_conv')

lemma dict_get_set_same: "dict_get (dict_set d k v) k = Some v"
  by (simp add: dict_get_def dict_set_def update_conv')

lemma is_dropped_mark_review: "is_dropped (mark_review env chunks v) = is_dropped v"
  by (simp add: is_dropped_def mark_review_def dict_get_set_other)

lemma validate_verdict:
  assumes "enforce_schema env tc chunks = Inr (tc1, issues)"
    and "content_text env tc1 = Inr content"
  shows "validate_test_case_schema env tc chunks =
     (if list_ex (fabricated_token env tc1 (all_text_of chunks)) (extracted_tokens content)
      then Inr (dict_set (dict_set tc1 ''_action'' (JStr ''drop'')) ''_hallucination_warning''
                  (JStr (''fabricated: '' @ join '', ''
                     (take 5 (fabricated_values env tc1 (all_text_of chunks) content)))),
                issues @ [''hallucination''])
      else Inr (tc1, issues))"
proof -
  have "(fabricated_values env tc1 (all_text_of chunks) content \<noteq> []) =
        list_ex (fabricated_token env tc1 (all_text_of chunks)) (extracted_tokens content)"
    by (auto simp: fabricated_values_def filter_empty_conv list_ex_iff)
  with assms show ?thesis
    by (simp add: validate_test_case_schema_def Let_def)
qed

lemma validation_loop_kept:
  "validation_loop env chunks tcs = Inr (validated, all_issues, dropped) \<Longrightarrow>
   \<exists>vs. list_all2 (\<lambda>tc v. \<exists>iss. validate_test_case_schema env tc chunks = Inr (v, iss)) tcs vs \<and>
        validated = map (mark_review env chunks) (filter (\<lambda>v. \<not> is_dropped v) vs)"
proof (induction tcs arbitrary: validated all_issues dropped)
  case Nil
  then show ?case by simp
next
  case (Cons tc tcs)
  from Cons.prems obtain v iss where v: "validate_test_case_schema env tc chunks = Inr (v, iss)"
    by (auto split: sum.splits)
  from Cons.prems v obtain validated' ai' dd' where
    rest: "validation_loop env chunks tcs = Inr (validated', ai', dd')"
    by (auto split: sum.splits)
  from Cons.IH [OF rest] obtain vs where
    vs: "list_all2 (\<lambda>tc v. \<exists>iss. validate_test_case_schema env tc chunks = Inr (v, iss)) tcs vs"
    and val': "validated' = map (mark_review env chunks) (filter (\<lambda>v. \<not> is_dropped v) vs)"
    by blast
  from Cons.prems v rest have
    "validated = (if is_dropped v then validated' else mark_review env chunks v # validated')"
    by (auto split: if_splits)
  with val' have "validated = map (mark_review env chunks) (filter (\<lambda>v. \<not> is_dropped v) (v # vs))"
    by simp
  moreover from v vs have
    "list_all2 (\<lambda>tc v. \<exists>iss. validate_test_case_schema env tc chunks = Inr (v, iss)) (tc # tcs) (v # vs)"
    by auto
  ultimately show ?case by blast
qed

lemma validation_loop_excludes:
  assumes loop: "validation_loop env chunks (before @ tc # after) = Inr (validated, all_issues, dropped)"
    and v: "validate_test_case_schema env tc chunks = Inr (tc2, issues2)"
    and d: "is_dropped tc2"
  shows "list_all (\<lambda>v. \<not> is_dropped v) validated \<and> tc2 \<notin> set validated \<and>
         length validated \<le> length before + length after"
proof -
  from validation_loop_kept [OF loop] obtain vs where
    vs: "list_all2 (\<lambda>tc v. \<exists>iss. validate_test_case_schema env tc chunks = Inr (v, iss))
           (before @ tc # after) vs"
    and val: "validated = map (mark_review env chunks) (filter (\<lambda>v. \<not> is_dropped v) vs)"
    by blast
  from vs obtain vb v va where split: "vs = vb @ v # va"
    and lb: "length vb = length before" and la: "length va = length after"
    and vv: "\<exists>iss. validate_test_case_schema env tc chunks = Inr (v, iss)"
    by (auto simp: list_all2_append1 list_all2_Cons1 dest: list_all2_lengthD)
  from vv v have "v = tc2" by auto
  have all: "list_all (\<lambda>v. \<not> is_dropped v) validated"
    by (simp add: val list_all_iff is_dropped_mark_review)
  then have "tc2 \<notin> set validated" using d by (auto simp: list_all_iff)
  moreover have "length validated \<le> length before + length after"
  proof -
    have "length validated = length (filter (\<lambda>v. \<not> is_dropped v) vb)
        + length (filter (\<lambda>v. \<not> is_dropped v) va)"
      using d \<open>v = tc2\<close> by (simp add: val split)
    also have "\<dots> \<le> length vb + length va"
      by (intro add_mono length_filter_le)
    finally show ?thesis by (simp add: lb la)
  qed
  ultimately show ?thesis using all by simp
qed

text \<open>
  C1, amended: let a test case pass the schema enforcement and let its content text (scenario,
  expected result and steps) be built. If one of the currency amounts, percentages or
  uppercase codes extracted from that text is fabricated in the code's sense (not on the
  blacklist of its pattern, not a code in a case of negative type, its check value, the token
  lowercased and for an amount ending in \<open>.00\<close> without that ending, absent from the
  lowercased concatenated chunk text, and not the check value \<open>$0\<close> in a context that
  classifies as zero-cost), the case is marked \<open>_action = drop\<close>, and whenever the
  validation loop returns on a batch holding the case, no returned case is marked dropped,
  the dropped case is not among them, and at least one case fewer is returned. If no token
  is fabricated, and in particular if every extracted token occurs in the chunk text when
  lowercased, the check leaves the case as the schema enforcement made it.
\<close>

theorem hallucination_drop:
  assumes "enforce_schema env tc chunks = Inr (tc1, issues)"
    and "content_text env tc1 = Inr content"
  shows "(list_ex (fabricated_token env tc1 (all_text_of chunks)) (extracted_tokens content) \<longrightarrow>
          (\<exists>tc2 issues2. validate_test_case_schema env tc chunks = Inr (tc2, issues2) \<and>
             is_dropped tc2 \<and>
             (\<forall>before after validated all_issues dropped.
                validation_loop env chunks (before @ tc # after) = Inr (validated, all_issues, dropped)
                \<longrightarrow> list_all (\<lambda>v. \<not> is_dropped v) validated \<and> tc2 \<notin> set validated \<and>
                    length validated \<le> length before + length after))) \<and>
         (\<not> list_ex (fabricated_token env tc1 (all_text_of chunks)) (extracted_tokens content) \<longrightarrow>
          validate_test_case_schema env tc chunks = Inr (tc1, issues)) \<and>
         (list_all (\<lambda>tok. contains (all_text_of chunks) (lower (snd tok))) (extracted_tokens content)
          \<longrightarrow> validate_test_case_schema env tc chunks = Inr (tc1, issues))"
proof (intro conjI impI)
  assume fab: "list_ex (fabricated_token env tc1 (all_text_of chunks)) (extracted_tokens content)"
  define tc2 where "tc2 = dict_set (dict_set tc1 ''_action'' (JStr ''drop'')) ''_hallucination_warning''
                  (JStr (''fabricated: '' @ join '', ''
                     (take 5 (fabricated_values env tc1 (all_text_of chunks) content))))"
  from validate_verdict [OF assms] fab
  have v: "validate_test_case_schema env tc chunks = Inr (tc2, issues @ [''hallucination''])"
    by (simp add: tc2_def)
  have d: "is_dropped tc2"
    by (simp add: tc2_def is_dropped_def dict_get_set_other dict_get_set_same)
  show "\<exists>tc2 issues2. validate_test_case_schema env tc chunks = Inr (tc2, issues2) \<and>
             is_dropped tc2 \<and>
             (\<forall>before after validated all_issues dropped.
                validation_loop env chunks (before @ tc # after) = Inr (validated, all_issues, dropped)
                \<longrightarrow> list_all (\<lambda>v. \<not> is_dropped v) validated \<and> tc2 \<notin> set validated \<and>
                    length validated \<le> length before + length after)"
    using v d validation_loop_excludes [OF _ v d] by blast
next
  assume "\<not> list_ex (fabricated_token env tc1 (all_text_of chunks)) (extracted_tokens content)"
  with validate_verdict [OF assms]
  show "validate_test_case_schema env tc chunks = Inr (tc1, issues)" by simp
next
  assume "list_all (\<lambda>tok. contains (all_text_of chunks) (lower (snd tok))) (extracted_tokens content)"
  then have "\<not> list_ex (fabricated_token env tc1 (all_text_of chunks)) (extracted_tokens content)"
    by (auto simp: list_all_iff list_ex_iff verbatim_not_fabricated)
  with validate_verdict [OF assms]
  show "validate_test_case_schema env tc chunks = Inr (tc1, issues)" by simp
qed


text \<open>
  C1, as stated: a token that does not appear verbatim in the chunk text, and meets none of
  the three exceptions, has the case dropped. It fails for an amount ending in \<open>.00\<close>:
  the code removes that ending before it looks the amount up. The case below cites
  \<open>$10.00\<close>, the chunk says \<open>$10\<close>; the token \<open>$10.00\<close> is not in the chunk
  text, it is no code and no zero amount, and the case is returned unmarked.
\<close>

theorem hallucination_drop_verbatim_counterexample:
  "content_text \<lparr>py_repr = (\<lambda>v. []), zero_cost_context = (\<lambda>s. False), has_verbatim_evidence = (\<lambda>d cs. True)\<rparr>
     [(''test_id'', JStr ''TC-001''), (''feature'', JStr ''Checkout''),
      (''test_scenario'', JStr ''Check the basic plan price''),
      (''test_steps'', JArr [JStr ''Open the pricing page'']),
      (''expected_result'', JStr ''The price shown is $10.00''),
      (''test_type'', JStr ''positive''), (''priority'', JStr ''high''),
      (''grounded_in'', JStr ''promo.md'')] = Inr ''Check the basic plan price The price shown is $10.00 Open the pricing page'' \<and>
   extracted_tokens ''Check the basic plan price The price shown is $10.00 Open the pricing page'' = [(Price, ''$10.00'')] \<and>
   \<not> contains (all_text_of [\<lparr>chunk_id = None, chunk_text = Some ''The basic plan costs $10 per month'', chunk_source = Some ''pricing.md'',
      distance = None, doc_type = None, hybrid_score = None, bm25_score = None\<rparr>]) (lower ''$10.00'') \<and>
   validate_test_case_schema \<lparr>py_repr = (\<lambda>v. []), zero_cost_context = (\<lambda>s. False), has_verbatim_evidence = (\<lambda>d cs. True)\<rparr>
     [(''test_id'', JStr ''TC-001''), (''feature'', JStr ''Checkout''),
      (''test_scenario'', JStr ''Check the basic plan price''),
      (''test_steps'', JArr [JStr ''Open the pricing page'']),
      (''expected_result'', JStr ''The price shown is $10.00''),
      (''test_type'', JStr ''positive''), (''priority'', JStr ''high''),
      (''grounded_in'', JStr ''promo.md'')]
     [\<lparr>chunk_id = None, chunk_text = Some ''The basic plan costs $10 per month'', chunk_source = Some ''pricing.md'',
      distance = None, doc_type = None, hybrid_score = None, bm25_score = None\<rparr>]
   = Inr ([(''test_id'', JStr ''TC-001''), (''feature'', JStr ''Checkout''),
      (''test_scenario'', JStr ''Check the basic plan price''),
      (''test_steps'', JArr [JStr ''Open the pricing page'']),
      (''expected_result'', JStr ''The price shown is $10.00''),
      (''test_type'', JStr ''positive''), (''priority'', JStr ''high''),
      (''grounded_in'', JStr ''promo.md'')], []) \<and>
   validation_loop \<lparr>py_repr = (\<lambda>v. []), zero_cost_context = (\<lambda>s. False), has_verbatim_evidence = (\<lambda>d cs. True)\<rparr>
     [\<lparr>chunk_id = None, chunk_text = Some ''The basic plan costs $10 per month'', chunk_source = Some ''pricing.md'',
      distance = None, doc_type = None, hybrid_score = None, bm25_score = None\<rparr>]
     [[(''test_id'', JStr ''TC-001''), (''feature'', JStr ''Checkout''),
      (''test_scenario'', JStr ''Check the basic plan price''),
      (''test_steps'', JArr [JStr ''Open the pricing page'']),
      (''expected_result'', JStr ''The price shown is $10.00''),
      (''test_type'', JStr ''positive''), (''priority'', JStr ''high''),
      (''grounded_in'', JStr ''promo.md'')]]
   = Inr ([[(''test_id'', JStr ''TC-001''), (''feature'', JStr ''Checkout''),
      (''test_scenario'', JStr ''Check the basic plan price''),
      (''test_steps'', JArr [JStr ''Open the pricing page'']),
      (''expected_result'', JStr ''The price shown is $10.00''),
      (''test_type'', JStr ''positive''), (''priority'', JStr ''high''),
      (''grounded_in'', JStr ''promo.md'')]], [], [])"
  by code_simp

theorem hallucination_drop_witness:
  "validate_test_case_schema \<lparr>py_repr = (\<lambda>v. []), zero_cost_context = (\<lambda>s. False), has_verbatim_evidence = (\<lambda>d cs. True)\<rparr>
     [(''test_id'', JStr ''TC-001''), (''feature'', JStr ''Checkout''),
      (''test_scenario'', JStr ''Apply a discount code at checkout''),
      (''test_steps'', JArr [JStr ''Enter SAVE10 in the code field'']),
      (''expected_result'', JStr ''Code SAVE10 gives 10% off the total''),
      (''test_type'', JStr ''positive''), (''priority'', JStr ''high''),
      (''grounded_in'', JStr ''promo.md'')]
     [\<lparr>chunk_id = None, chunk_text = Some ''Discount code SAVE10 gives 10% off'', chunk_source = Some ''promo.md'',
      distance = None, doc_type = None, hybrid_score = None, bm25_score = None\<rparr>]
   = Inr ([(''test_id'', JStr ''TC-001''), (''feature'', JStr ''Checkout''),
      (''test_scenario'', JStr ''Apply a discount code at checkout''),
      (''test_steps'', JArr [JStr ''Enter SAVE10 in the code field'']),
      (''expected_result'', JStr ''Code SAVE10 gives 10% off the total''),
      (''test_type'', JStr ''positive''), (''priority'', JStr ''high''),
      (''grounded_in'', JStr ''promo.md'')], []) \<and>
   validate_test_case_schema \<lparr>py_repr = (\<lambda>v. []), zero_cost_context = (\<lambda>s. False), has_verbatim_evidence = (\<lambda>d cs. True)\<rparr>
     [(''test_id'', JStr ''TC-002''), (''feature'', JStr ''Checkout''),
      (''test_scenario'', JStr ''Apply a bigger discount code''),
      (''test_steps'', JArr [JStr ''Enter SAVE20 in the code field'']),
      (''expected_result'', JStr ''Code SAVE20 gives 20% off the total''),
      (''test_type'', JStr ''positive''), (''priority'', JStr ''high''),
      (''grounded_in'', JStr ''promo.md'')]
     [\<lparr>chunk_id = None, chunk_text = Some ''Discount code SAVE10 gives 10% off'', chunk_source = Some ''promo.md'',
      distance = None, doc_type = None, hybrid_score = None, bm25_score = None\<rparr>]
   = Inr ([(''test_id'', JStr ''TC-002''), (''feature'', JStr ''Checkout''),
      (''test_scenario'', JStr ''Apply a bigger discount code''),
      (''test_steps'', JArr [JStr ''Enter SAVE20 in the code field'']),
      (''expected_result'', JStr ''Code SAVE20 gives 20% off the total''),
      (''test_type'', JStr ''positive''), (''priority'', JStr ''high''),
      (''grounded_in'', JStr ''promo.md''),
      (''_action'', JStr ''drop''),
      (''_hallucination_warning'', JStr ''fabricated: 20%, SAVE20, SAVE20'')], [''hallucination'']) \<and>
   validation_loop \<lparr>py_repr = (\<lambda>v. []), zero_cost_context = (\<lambda>s. False), has_verbatim_evidence = (\<lambda>d cs. True)\<rparr>
     [\<lparr>chunk_id = None, chunk_text = Some ''Discount code SAVE10 gives 10% off'', chunk_source = Some ''promo.md'',
      distance = None, doc_type = None, hybrid_score = None, bm25_score = None\<rparr>]
     [[(''test_id'', JStr ''TC-001''), (''feature'', JStr ''Checkout''),
      (''test_scenario'', JStr ''Apply a discount code at checkout''),
      (''test_steps'', JArr [JStr ''Enter SAVE10 in the code field'']),
      (''expected_result'', JStr ''Code SAVE10 gives 10% off the total''),
      (''test_type'', JStr ''positive''), (''priority'', JStr ''high''),
      (''grounded_in'', JStr ''promo.md'')],
      [(''test_id'', JStr ''TC-002''), (''feature'', JStr ''Checkout''),
      (''test_scenario'', JStr ''Apply a bigger discount code''),
      (''test_steps'', JArr [JStr ''Enter SAVE20 in the code field'']),
      (''expected_result'', JStr ''Code SAVE20 gives 20% off the total''),
      (''test_type'', JStr ''positive''), (''priority'', JStr ''high''),
      (''grounded_in'', JStr ''promo.md'')]]
   = Inr ([[(''test_id'', JStr ''TC-001''), (''feature'', JStr ''Checkout''),
      (''test_scenario'', JStr ''Apply a discount code at checkout''),
      (''test_steps'', JArr [JStr ''Enter SAVE10 in the code field'']),
      (''expected_result'', JStr ''Code SAVE10 gives 10% off the total''),
      (''test_type'', JStr ''positive''), (''priority'', JStr ''high''),
      (''grounded_in'', JStr ''promo.md'')]], [],
          [(JStr ''TC-002'', JStr ''fabricated: 20%, SAVE20, SAVE20'')])"
proof -
  let ?env = "\<lparr>py_repr = (\<lambda>v. []), zero_cost_context = (\<lambda>s. False), has_verbatim_evidence = (\<lambda>d cs. True)\<rparr>"
  let ?a = "[(''test_id'', JStr ''TC-001''), (''feature'', JStr ''Checkout''),
      (''test_scenario'', JStr ''Apply a discount code at checkout''),
      (''test_steps'', JArr [JStr ''Enter SAVE10 in the code field'']),
      (''expected_result'', JStr ''Code SAVE10 gives 10% off the total''),
      (''test_type'', JStr ''positive''), (''priority'', JStr ''high''),
      (''grounded_in'', JStr ''promo.md'')]"
  let ?b = "[(''test_id'', JStr ''TC-002''), (''feature'', JStr ''Checkout''),
      (''test_scenario'', JStr ''Apply a bigger discount code''),
      (''test_steps'', JArr [JStr ''Enter SAVE20 in the code field'']),
      (''expected_result'', JStr ''Code SAVE20 gives 20% off the total''),
      (''test_type'', JStr ''positive''), (''priority'', JStr ''high''),
      (''grounded_in'', JStr ''promo.md'')]"
  let ?c = "\<lparr>chunk_id = None, chunk_text = Some ''Discount code SAVE10 gives 10% off'', chunk_source = Some ''promo.md'',
      distance = None, doc_type = None, hybrid_score = None, bm25_score = None\<rparr>"
  have ea: "enforce_schema ?env ?a [?c] = Inr (?a, [])"
    by code_simp
  have ca: "content_text ?env ?a = Inr ''Apply a discount code at checkout Code SAVE10 gives 10% off the total Enter SAVE10 in the code field''"
    by code_simp
  have va: "list_all (\<lambda>tok. contains (all_text_of [?c]) (lower (snd tok)))
              (extracted_tokens ''Apply a discount code at checkout Code SAVE10 gives 10% off the total Enter SAVE10 in the code field'')"
    by code_simp
  from hallucination_drop [OF ea ca] va
  have a: "validate_test_case_schema ?env ?a [?c] = Inr (?a, [])"
    by blast
  have eb: "enforce_schema ?env ?b [?c] = Inr (?b, [])"
    by code_simp
  have cb: "content_text ?env ?b = Inr ''Apply a bigger discount code Code SAVE20 gives 20% off the total Enter SAVE20 in the code field''"
    by code_simp
  have fb: "list_ex (fabricated_token ?env ?b (all_text_of [?c]))
              (extracted_tokens ''Apply a bigger discount code Code SAVE20 gives 20% off the total Enter SAVE20 in the code field'')"
    by code_simp
  have b: "validate_test_case_schema ?env ?b [?c] =
      Inr ([(''test_id'', JStr ''TC-002''), (''feature'', JStr ''Checkout''),
      (''test_scenario'', JStr ''Apply a bigger discount code''),
      (''test_steps'', JArr [JStr ''Enter SAVE20 in the code field'']),
      (''expected_result'', JStr ''Code SAVE20 gives 20% off the total''),
      (''test_type'', JStr ''positive''), (''priority'', JStr ''high''),
      (''grounded_in'', JStr ''promo.md''),
      (''_action'', JStr ''drop''),
      (''_hallucination_warning'', JStr ''fabricated: 20%, SAVE20, SAVE20'')], [''hallucination''])"
    by code_simp
  have l: "validation_loop ?env [?c] [?a, ?b] =
      Inr ([?a], [], [(JStr ''TC-002'', JStr ''fabricated: 20%, SAVE20, SAVE20'')])"
    by code_simp
  from hallucination_drop [OF eb cb] fb b have "is_dropped [(''test_id'', JStr ''TC-002''), (''feature'', JStr ''Checkout''),
      (''test_scenario'', JStr ''Apply a bigger discount code''),
      (''test_steps'', JArr [JStr ''Enter SAVE20 in the code field'']),
      (''expected_result'', JStr ''Code SAVE20 gives 20% off the total''),
      (''test_type'', JStr ''positive''), (''priority'', JStr ''high''),
      (''grounded_in'', JStr ''promo.md''),
      (''_action'', JStr ''drop''),
      (''_hallucination_warning'', JStr ''fabricated: 20%, SAVE20, SAVE20'')]"
    by auto
  with a b l show ?thesis by simp
qed

section \<open>Properties of the Response Normalizer\<close>

lemma remove_trailing_commas_id: "no_trailing_comma s \<Longrightarrow> remove_trailing_commas s = s"
  by (induction s) auto

lemma no_trailing_comma_append: "no_trailing_comma (u @ v) \<Longrightarrow> no_trailing_comma v"
  by (induction u) auto

lemma prefix_single_dropWhile_append:
  "\<not> P c \<Longrightarrow> \<not> prefix [c] (dropWhile P (u @ c # w)) \<Longrightarrow> \<not> prefix [c] (dropWhile P (u @ d # c # w)) "
  by (induction u) auto

lemma dropWhile_space_insert:
  assumes "\<not> prefix [b] (dropWhile is_space (u @ CHR ''}'' # w))" and "b \<noteq> CHR '',''"
  shows "\<not> prefix [b] (dropWhile is_space (u @ CHR '','' # CHR ''}'' # w))"
  using assms by (induction u) auto

lemma remove_trailing_commas_inserted:
  "no_trailing_comma (u @ ''}'' @ w) \<Longrightarrow>
   remove_trailing_commas (u @ '',}'' @ w) = u @ ''}'' @ w"
proof (induction u)
  case Nil
  then have "no_trailing_comma w" by simp
  then show ?case
    by (simp add: remove_trailing_commas_id is_space_def)
next
  case (Cons c u)
  from Cons.prems have rest: "no_trailing_comma (u @ ''}'' @ w)" by simp
  from Cons.prems have
    nb: "c = CHR '','' \<Longrightarrow> \<not> prefix ''}'' (dropWhile is_space (u @ CHR ''}'' # w))"
    and nk: "c = CHR '','' \<Longrightarrow> \<not> prefix '']'' (dropWhile is_space (u @ CHR ''}'' # w))"
    by auto
  have "c = CHR '','' \<Longrightarrow> \<not> prefix ''}'' (dropWhile is_space (u @ CHR '','' # CHR ''}'' # w))"
    using dropWhile_space_insert [OF nb] by simp
  moreover have "c = CHR '','' \<Longrightarrow> \<not> prefix '']'' (dropWhile is_space (u @ CHR '','' # CHR ''}'' # w))"
    using dropWhile_space_insert [OF nk] by simp
  ultimately show ?case
    using Cons.IH [OF rest] by simp
qed

lemma separate_objects_id: "no_adjacent_objects s \<Longrightarrow> separate_objects s = s"
  by (induction s) auto

lemma dropWhile_space_butlast:
  "\<not> prefix ''{'' (dropWhile is_space (t @ '']'')) \<Longrightarrow> \<not> prefix ''{'' (dropWhile is_space t)"
  by (induction t) auto

lemma no_adjacent_objects_butlast:
  "no_adjacent_objects (t @ '']'') \<Longrightarrow> no_adjacent_objects t"
proof (induction t)
  case Nil
  show ?case by simp
next
  case (Cons c t)
  then show ?case
    using dropWhile_space_butlast [of t] by auto
qed

lemma strip_id:
  assumes "s \<noteq> []" and "\<not> is_space (hd s)" and "\<not> is_space (last s)"
  shows "strip s = s"
proof -
  from assms have a: "dropWhile is_space s = s" by (cases s) auto
  from assms have "rev s \<noteq> []" and "\<not> is_space (hd (rev s))"
    by (simp_all add: hd_rev)
  then have "dropWhile is_space (rev s) = rev s" by (cases "rev s") auto
  with a show ?thesis by (simp add: strip_def)
qed

lemma dropWhile_space_drop_last:
  "\<not> prefix [b] (dropWhile is_space (t @ '']'')) \<Longrightarrow> \<not> prefix [b] (dropWhile is_space t)"
  by (induction t) auto

lemma no_trailing_comma_butlast:
  "no_trailing_comma (t @ '']'') \<Longrightarrow> no_trailing_comma t"
proof (induction t)
  case Nil
  show ?case by simp
next
  case (Cons c t)
  then show ?case
    using dropWhile_space_drop_last [of "CHR ''}''" t] dropWhile_space_drop_last [of "CHR '']''" t]
    by auto
qed

text \<open>
  C9, amended: let \<open>s\<close> be the serialization of a JSON array of objects that starts with
  \<open>[\<close> and ends with \<open>]\<close>, has as many \<open>[\<close> as \<open>]\<close> and as many \<open>{\<close> as
  \<open>}\<close>, and in which no comma is followed, after optional whitespace, by a closing brace
  or bracket and no closing brace is followed, after optional whitespace, by an opening
  brace (as is the case when no string in it holds such characters). Removing the closing
  \<open>]\<close> and putting a comma immediately before a \<open>}\<close> gives a text on which
  \<open>repair_json\<close> returns \<open>s\<close> again, so the result parses to the same list of dicts.
\<close>

theorem repair_json_restores:
  assumes s: "s = u @ ''}'' @ w @ '']''"
    and start: "starts_with s ''[''"
    and commas: "no_trailing_comma s"
    and objects: "no_adjacent_objects s"
    and brackets: "count_list s (CHR ''['') = count_list s (CHR '']'')"
    and braces: "count_list s (CHR ''{'') = count_list s (CHR ''}'')"
    and parses: "json_loads s = Some (JArr (map JObj dicts))"
  shows "repair_json (u @ '',}'' @ w) = s \<and>
         json_loads (repair_json (u @ '',}'' @ w)) = Some (JArr (map JObj dicts))"
proof -
  define t where "t = u @ ''}'' @ w"
  have st: "s = t @ '']''" using s by (simp add: t_def)
  have "no_trailing_comma t"
    using commas unfolding st by (rule no_trailing_comma_butlast)
  then have c1: "remove_trailing_commas (u @ '',}'' @ w) = t"
    unfolding t_def by (rule remove_trailing_commas_inserted)
  have "no_adjacent_objects t"
    using objects unfolding st by (rule no_adjacent_objects_butlast)
  then have c2: "separate_objects t = t"
    by (rule separate_objects_id)
  have c3: "close_open (CHR ''{'') (CHR ''}'') t = t"
    using braces by (simp add: close_open_def st)
  have c4: "close_open (CHR ''['') (CHR '']'') t = s"
    using brackets by (simp add: close_open_def st)
  from start obtain r where r: "s = CHR ''['' # r"
    by (auto simp: starts_with_def prefix_def)
  have "s \<noteq> []" and "\<not> is_space (hd s)"
    by (simp_all add: r is_space_def)
  moreover have "\<not> is_space (last s)"
    by (simp add: st is_space_def)
  ultimately have c5: "strip s = s" by (rule strip_id)
  have c6: "\<not> starts_with s ''{''"
    by (simp add: r starts_with_def)
  have "repair_json (u @ '',}'' @ w) = s"
    unfolding repair_json_def Let_def c1 c2 c3 c4 c5 using c6 by simp
  with parses show ?thesis by simp
qed

theorem repair_json_restores_witness:
  \<open>repair_json ''[{"a": 1,}, {"b": "x"}'' = ''[{"a": 1}, {"b": "x"}]'' \<and>
   json_loads (repair_json ''[{"a": 1,}, {"b": "x"}'') =
     Some (JArr (map JObj [[(''a'', JInt 1)], [(''b'', JStr ''x'')]]))\<close>
proof -
  let ?s = \<open>''[{"a": 1}, {"b": "x"}]''\<close>
  have s: \<open>?s = ''[{"a": 1'' @ ''}'' @ '', {"b": "x"}'' @ '']''\<close> by simp
  have d: \<open>''[{"a": 1'' @ '',}'' @ '', {"b": "x"}'' = ''[{"a": 1,}, {"b": "x"}''\<close> by simp
  have start: "starts_with ?s ''[''" by (simp add: starts_with_def)
  have commas: "no_trailing_comma ?s" by code_simp
  have objects: "no_adjacent_objects ?s" by code_simp
  have brackets: "count_list ?s (CHR ''['') = count_list ?s (CHR '']'')" by simp
  have braces: "count_list ?s (CHR ''{'') = count_list ?s (CHR ''}'')" by simp
  have parses: "json_loads ?s = Some (JArr (map JObj [[(''a'', JInt 1)], [(''b'', JStr ''x'')]]))"
    by code_simp
  from repair_json_restores [OF s start commas objects brackets braces parses]
  show ?thesis unfolding d .
qed

text \<open>
  C9, as stated: for every such array the repaired text parses. It fails when a string
  holds a bracket: \<open>repair_json\<close> counts characters, in strings as elsewhere. The array
  with the one object whose value is the string \<open>]\<close> parses; with its closing
  \<open>]\<close> removed and a comma put before the \<open>}\<close>, the repair removes the comma, finds
  one \<open>[\<close> and one \<open>]\<close>, appends nothing, and the result does not parse.
\<close>

theorem repair_json_bracket_in_string_counterexample:
  \<open>json_loads ''[{"a": "]"}]'' = Some (JArr [JObj [(''a'', JStr '']'')]]) \<and>
   repair_json ''[{"a": "]",}'' = ''[{"a": "]"}'' \<and>
   json_loads (repair_json ''[{"a": "]",}'') = None\<close>
  by code_simp

lemma synthesize_with_chunk_raises:
  "synthesize env raw_response prompt (c # cs) = Inl AttributeError"
  by (simp add: synthesize_def synthesized_feature_name_def tuple_lower_def Let_def)

text \<open>
  C2 claims that on the raw text \<open>not json at all\<close> the pipeline returns no test case
  or one synthesized case and never raises. On the code: whatever the similarities and the
  prompt, when the semantic matcher is available and at least one chunk was used, the
  cascade on \<open>not json at all\<close> reaches the synthesis and raises \<open>AttributeError\<close>
  there.
\<close>

theorem normalize_not_json_raises:
  "normalize_response env True ''not json at all'' prompt (c # cs) = Inl AttributeError"
proof -
  have e: "extract_json_from_response ''not json at all'' = ''not json at all''"
    by code_simp
  have r: "repair_json ''not json at all'' = ''not json at all''"
    by code_simp
  have p: "json_loads ''not json at all'' = None"
    by code_simp
  have a: "aggressive_json_extraction ''not json at all'' = ''[]''"
    by code_simp
  have l: "json_loads ''[]'' = Some (JArr [])"
    by code_simp
  have f: "aggressive_fallback ''not json at all'' = []"
    by (simp add: aggressive_fallback_def a l dicts_in_def map_filter_simps)
  have s: "secondary_json_format_pass ''not json at all'' = []"
    by code_simp
  show ?thesis
    by (simp add: normalize_response_def Let_def e r p a l f s response_items_def
        map_filter_simps synthesize_with_chunk_raises)
qed

text \<open>
  With the matcher not available the same input gives the early return with no test case.
\<close>

lemma normalize_not_json_without_matcher:
  "normalize_response env False ''not json at all'' prompt used_chunks = Inr Fallback_Unavailable"
proof -
  have e: "extract_json_from_response ''not json at all'' = ''not json at all''"
    by code_simp
  have r: "repair_json ''not json at all'' = ''not json at all''"
    by code_simp
  have p: "json_loads ''not json at all'' = None"
    by code_simp
  have a: "aggressive_json_extraction ''not json at all'' = ''[]''"
    by code_simp
  have l: "json_loads ''[]'' = Some (JArr [])"
    by code_simp
  have f: "aggressive_fallback ''not json at all'' = []"
    by (simp add: aggressive_fallback_def a l dicts_in_def map_filter_simps)
  have s: "secondary_json_format_pass ''not json at all'' = []"
    by code_simp
  show ?thesis
    by (simp add: normalize_response_def Let_def e r p a l f s response_items_def
        map_filter_simps)
qed

end
